theory Spec2Isabelle
  imports Main
begin

section \<open>Strings, files and the log\<close>

text \<open>
  A Python \<open>str\<close> is a sequence of Unicode code points, so it is modelled as a list of
  natural numbers. \<open>py\<close> embeds the literals of \<open>main.py\<close> (all of them ASCII).
\<close>

type_synonym pystr = "nat list"

definition py :: "string \<Rightarrow> pystr" where
  "py lit = map of_char lit"

definition NL :: nat where
  "NL = 10"

definition CR :: nat where
  "CR = 13"

text \<open>
  \<open>str.strip()\<close> without argument removes the characters for which \<open>str.isspace\<close>
  holds: the code points below.
\<close>

definition isspace :: "nat \<Rightarrow> bool" where
  "isspace c =
     ((9 \<le> c \<and> c \<le> 13) \<or> (28 \<le> c \<and> c \<le> 32) \<or> c = 133 \<or> c = 160 \<or> c = 5760 \<or>
      (8192 \<le> c \<and> c \<le> 8202) \<or> c = 8232 \<or> c = 8233 \<or> c = 8239 \<or> c = 8287 \<or>
      c = 12288)"

definition strip :: "pystr \<Rightarrow> pystr" where
  "strip line = rev (dropWhile isspace (rev (dropWhile isspace line)))"

text \<open>
  A file opened with \<open>open(path, "r", encoding="utf-8")\<close> is read with universal
  newlines: \<open>\r\n\<close> and a lone \<open>\r\<close> arrive as \<open>\n\<close>. Iterating over the file yields
  its lines, each with its terminating \<open>\n\<close> (the last line may have none).
\<close>

fun universal_newlines :: "pystr \<Rightarrow> pystr" where
  "universal_newlines [] = []"
| "universal_newlines [c] = (if c = CR then [NL] else [c])"
| "universal_newlines (c # d # cs) =
     (if c = CR \<and> d = NL then NL # universal_newlines cs
      else if c = CR then NL # universal_newlines (d # cs)
      else c # universal_newlines (d # cs))"

fun iter_lines :: "pystr \<Rightarrow> pystr list" where
  "iter_lines [] = []"
| "iter_lines (c # cs) =
     (if c = NL then [NL] # iter_lines cs
      else (case iter_lines cs of
              [] \<Rightarrow> [[c]]
            | line # lines \<Rightarrow> (c # line) # lines))"

text \<open>
  Exceptions are values. \<open>KeyboardInterrupt\<close> is the only one \<open>main\<close> catches.
  \<open>open\<close> raises \<open>OSError\<close> (no such file, no permission) or \<open>ValueError\<close> (a NUL in
  the path); reading a file that is not UTF-8 raises \<open>UnicodeDecodeError\<close>; writing a
  string that UTF-8 cannot encode raises \<open>UnicodeEncodeError\<close>; the \<open>print\<close> of \<open>rich\<close>
  raises \<open>MarkupError\<close> on a closing tag that closes nothing. \<open>OtherException\<close> stands
  for anything else a collaborator may raise.
\<close>

datatype exn =
  KeyboardInterrupt | OSError | ValueError | UnicodeDecodeError | UnicodeEncodeError |
  MarkupError | OtherException

text \<open>
  The file system holds, for each path that can be opened and read as UTF-8 text, the
  decoded text of the file, and says which paths can be opened for writing. For a path
  that cannot be opened or read, \<open>open_error\<close> is the exception the attempt raises.
\<close>

record filesystem =
  files :: "pystr \<Rightarrow> pystr option"
  writable :: "pystr \<Rightarrow> bool"
  open_error :: "pystr \<Rightarrow> exn"

definition open_r :: "pystr \<Rightarrow> filesystem \<Rightarrow> exn + pystr" where
  "open_r path disk =
     (case files disk path of None \<Rightarrow> Inl (open_error disk path) | Some content \<Rightarrow> Inr content)"

text \<open>Mode \<open>"w"\<close> creates the file or truncates it.\<close>

definition open_w :: "pystr \<Rightarrow> filesystem \<Rightarrow> exn + filesystem" where
  "open_w path disk =
     (if writable disk path then Inr (disk\<lparr>files := (files disk)(path \<mapsto> [])\<rparr>)
      else Inl (open_error disk path))"

text \<open>
  UTF-8 encodes every code point but the surrogates \<open>U+D800\<close> to \<open>U+DFFF\<close>, which a
  Python \<open>str\<close> may hold. A number from \<open>0x110000\<close> on is no code point and is treated
  like a surrogate.
\<close>

definition encodable_char :: "nat \<Rightarrow> bool" where
  "encodable_char c = (c < 55296 \<or> (57343 < c \<and> c < 1114112))"

definition encodable :: "pystr \<Rightarrow> bool" where
  "encodable chunk = list_all encodable_char chunk"

text \<open>
  \<open>f.write(chunk)\<close> on a file opened with \<open>encoding="utf-8"\<close> encodes the chunk first:
  when that fails nothing of the chunk is written, and what was written before stays.
\<close>

definition f_write :: "pystr \<Rightarrow> pystr \<Rightarrow> filesystem \<Rightarrow> exn + filesystem" where
  "f_write path chunk disk =
     (if encodable chunk then
        Inr (disk\<lparr>files := (files disk)(path \<mapsto>
               (case files disk path of None \<Rightarrow> [] | Some old \<Rightarrow> old) @ chunk)\<rparr>)
      else Inl UnicodeEncodeError)"

section \<open>The prompt source\<close>

text \<open>
  \<open>load_prompts\<close> (lines 84 to 98). \<open>PROMPTS\<close> is the list \<open>main.py\<close> imports from
  \<open>prompts.py\<close>; the function is modelled for any such list, which is its first
  argument. The test \<open>if prompt_file:\<close> is false for \<open>None\<close> and for the empty string.
\<close>

definition load_prompts :: "pystr list \<Rightarrow> pystr option \<Rightarrow> filesystem \<Rightarrow> exn + pystr list" where
  "load_prompts PROMPTS prompt_file disk =
     (case prompt_file of
        None \<Rightarrow> Inr PROMPTS
      | Some path \<Rightarrow>
          if path = [] then Inr PROMPTS
          else (case open_r path disk of
                  Inl e \<Rightarrow> Inl e
                | Inr content \<Rightarrow>
                    Inr (map strip (filter (\<lambda>line. strip line \<noteq> [])
                           (iter_lines (universal_newlines content))))))"

section \<open>State, collaborators and arguments\<close>

datatype level = DEBUG | INFO | WARNING | ERROR

text \<open>
  What a call can do: return a value or raise, in either case leaving a state behind.
  An exception does not undo what was done before it.
\<close>

datatype ('a, 's) outcome = Returned 'a 's | Raised exn 's

text \<open>
  The state \<open>main\<close> works on: the outside world of the completion client (type \<open>'w\<close>),
  the file system, the records handed to \<open>_logger\<close>, the strings handed to \<open>print\<close>, and
  the local list \<open>prompt_response_pairs\<close>. The rendering that \<open>rich\<close> and \<open>tqdm\<close> do on the
  terminal is not modelled.
\<close>

record 'w state =
  world :: 'w
  disk :: filesystem
  log :: "(level \<times> pystr) list"
  stdout :: "pystr list"
  prompt_response_pairs :: "(pystr \<times> pystr) list"

definition logger :: "level \<Rightarrow> pystr \<Rightarrow> 'w state \<Rightarrow> 'w state" where
  "logger lvl msg s = s\<lparr>log := log s @ [(lvl, msg)]\<rparr>"

text \<open>
  The collaborators \<open>main.py\<close> imports: the class \<open>ChatGPTClient\<close> of \<open>chatgpt_client\<close>
  (its constructor, \<open>get_response\<close> and the attribute \<open>last_response\<close>), \<open>time.sleep\<close>,
  \<open>save_responses_to_docx\<close> of \<open>docgen\<close> and the \<open>print\<close> of \<open>rich\<close>. They are
  parameters. A \<open>KeyboardInterrupt\<close> reaches the program as an exception raised by one
  of the two blocking calls of the loop, \<open>get_response\<close> and \<open>time.sleep\<close>. The sampling
  parameters are floats that are only passed on; their type is the parameter \<open>'f\<close>.

  \<open>rich_print msg\<close> says what the \<open>print\<close> of \<open>rich\<close> does with a string: \<open>None\<close> when
  it renders it, \<open>Some e\<close> when it raises \<open>e\<close> instead. The strings \<open>main.py\<close> prints
  carry prompts and responses inside console markup, unescaped, so a closing tag in a
  prompt or a response (as in \<open>[/INST]\<close>) makes it raise \<open>MarkupError\<close>.
\<close>

record ('w, 'f) env =
  ChatGPTClient :: "pystr \<Rightarrow> 'w \<Rightarrow> (unit, 'w) outcome"
  get_response :: "pystr \<Rightarrow> 'f \<Rightarrow> 'f \<Rightarrow> 'f \<Rightarrow> 'f \<Rightarrow> 'w \<Rightarrow> (pystr, 'w) outcome"
  last_response :: "'w \<Rightarrow> pystr"
  time_sleep :: "int \<Rightarrow> 'w \<Rightarrow> (unit, 'w) outcome"
  save_responses_to_docx ::
    "(pystr \<times> pystr) list \<Rightarrow> pystr \<Rightarrow> filesystem \<Rightarrow> (unit, filesystem) outcome"
  rich_print :: "pystr \<Rightarrow> exn option"

definition print :: "('w, 'f) env \<Rightarrow> pystr \<Rightarrow> 'w state \<Rightarrow> (unit, 'w state) outcome" where
  "print E msg s =
     (case rich_print E msg of
        None \<Rightarrow> Returned () (s\<lparr>stdout := stdout s @ [msg]\<rparr>)
      | Some e \<Rightarrow> Raised e s)"

text \<open>
  The namespace \<open>parse_args\<close> returns; \<open>output_filename\<close> is its attribute \<open>output\<close>.
\<close>

record 'f args =
  ini :: pystr
  sleep :: int
  output_filename :: pystr
  output_format :: pystr
  prompt_file :: "pystr option"
  debug :: bool
  temperature :: 'f
  top_p :: 'f
  frequency_penalty :: 'f
  presence_penalty :: 'f

section \<open>The output writer\<close>

text \<open>The two f-strings written to a file and the one printed (lines 120, 126, 131).\<close>

definition txt_block :: "pystr \<times> pystr \<Rightarrow> pystr" where
  "txt_block pr =
     (case pr of (prompt, response) \<Rightarrow>
        py ''Prompt: '' @ prompt @ [NL] @ py ''Response: '' @ response @ [NL, NL])"

definition md_block :: "pystr \<times> pystr \<Rightarrow> pystr" where
  "md_block pr =
     (case pr of (prompt, response) \<Rightarrow>
        py ''## Prompt'' @ [NL] @ prompt @ [NL, NL] @ py ''### Response'' @ [NL] @ response @ [NL, NL])"

definition stdout_block :: "pystr \<times> pystr \<Rightarrow> pystr" where
  "stdout_block pr =
     (case pr of (prompt, response) \<Rightarrow>
        py ''## Prompt: '' @ prompt @ [NL] @ py ''## Response: '' @ response @ [NL])"

text \<open>
  \<open>for prompt, response in prompt_response_pairs: f.write(...)\<close>: each block is written
  in turn; a write that raises ends the loop, the blocks before it are in the file.
\<close>

fun write_each ::
  "(pystr \<times> pystr \<Rightarrow> pystr) \<Rightarrow> (pystr \<times> pystr) list \<Rightarrow> pystr \<Rightarrow> filesystem \<Rightarrow> (unit, filesystem) outcome"
where
  "write_each block [] filename f = Returned () f"
| "write_each block (pr # rest) filename f =
     (case f_write filename (block pr) f of
        Inl e \<Rightarrow> Raised e f
      | Inr f' \<Rightarrow> write_each block rest filename f')"

text \<open>
  \<open>with open(filename, "w", encoding="utf-8") as f:\<close> around that loop: the file is
  opened (which may raise), the blocks are written, and the file is closed whether the
  loop returned or raised.
\<close>

definition write_blocks ::
  "(pystr \<times> pystr \<Rightarrow> pystr) \<Rightarrow> (pystr \<times> pystr) list \<Rightarrow> pystr \<Rightarrow> 'w state \<Rightarrow> (unit, 'w state) outcome"
where
  "write_blocks block pairs filename s =
     (case open_w filename (disk s) of
        Inl e \<Rightarrow> Raised e s
      | Inr f \<Rightarrow>
          (case write_each block pairs filename f of
             Raised e f' \<Rightarrow> Raised e (s\<lparr>disk := f'\<rparr>)
           | Returned u f' \<Rightarrow> Returned () (s\<lparr>disk := f'\<rparr>)))"

text \<open>
  \<open>for prompt, response in prompt_response_pairs: print(...)\<close>: a \<open>print\<close> that raises
  ends the loop.
\<close>

fun print_each :: "('w, 'f) env \<Rightarrow> (pystr \<times> pystr) list \<Rightarrow> 'w state \<Rightarrow> (unit, 'w state) outcome" where
  "print_each E [] s = Returned () s"
| "print_each E (pr # rest) s =
     (case print E (stdout_block pr) s of
        Raised e s' \<Rightarrow> Raised e s'
      | Returned u s' \<Rightarrow> print_each E rest s')"

text \<open>\<open>save_responses\<close> (lines 101 to 135).\<close>

definition save_responses ::
  "('w, 'f) env \<Rightarrow> (pystr \<times> pystr) list \<Rightarrow> pystr \<Rightarrow> pystr \<Rightarrow> 'w state \<Rightarrow> (unit, 'w state) outcome"
where
  "save_responses E pairs filename fmt s =
     (if fmt = py ''docx'' then
        (let s1 = logger INFO (py ''Saving responses to '' @ filename @ py '' in DOCX format'') s
         in case save_responses_to_docx E pairs filename (disk s1) of
              Raised e f \<Rightarrow> Raised e (s1\<lparr>disk := f\<rparr>)
            | Returned u f \<Rightarrow> Returned () (s1\<lparr>disk := f\<rparr>))
      else if fmt = py ''txt'' then
        write_blocks txt_block pairs filename
          (logger INFO (py ''Saving responses to '' @ filename @ py '' in TXT format'') s)
      else if fmt = py ''md'' then
        write_blocks md_block pairs filename
          (logger INFO (py ''Saving responses to '' @ filename @ py '' in Markdown format'') s)
      else if fmt = py ''stdout'' then
        print_each E pairs (logger INFO (py ''Printing responses to stdout'') s)
      else
        Returned () (logger ERROR (py ''Unknown output format: '' @ fmt) s))"

section \<open>The processing loop\<close>

text \<open>
  The failure branch of the loop body (lines 179 to 183): two error records, two
  \<open>print\<close> calls, then \<open>break\<close>. Either \<open>print\<close> may raise, and then what follows it is
  not done.
\<close>

definition report_failure ::
  "('w, 'f) env \<Rightarrow> pystr \<Rightarrow> pystr \<Rightarrow> 'w state \<Rightarrow> (unit, 'w state) outcome"
where
  "report_failure E prompt response s =
     (let s1 = logger ERROR (py ''Error generating response for prompt: '' @ prompt) s;
          s2 = logger ERROR (py ''Exiting due to error: '' @ response) s1
      in case print E (py ''[red]Error generating response for prompt: '' @ prompt @ py ''[/red]'') s2 of
           Raised e s3 \<Rightarrow> Raised e s3
         | Returned u s3 \<Rightarrow> print E (py ''[red]Exiting due to error:[/red] '' @ response) s3)"

text \<open>
  The body of \<open>for prompt in tqdm(prompts, ...)\<close> (lines 166 to 183). A prompt whose
  call returns \<open>'Success'\<close> is appended with \<open>client.last_response\<close> and the loop sleeps;
  any other return value is reported and the loop is left, by \<open>break\<close> or by the
  exception of a \<open>print\<close>.
\<close>

fun for_prompts ::
  "('w, 'f) env \<Rightarrow> 'f args \<Rightarrow> pystr list \<Rightarrow> 'w state \<Rightarrow> (unit, 'w state) outcome"
where
  "for_prompts E a [] s = Returned () s"
| "for_prompts E a (prompt # rest) s =
     (let s1 = logger INFO (py ''Sending prompt: '' @ prompt) s
      in case get_response E prompt (temperature a) (top_p a) (frequency_penalty a)
                (presence_penalty a) (world s1) of
           Raised e w \<Rightarrow> Raised e (s1\<lparr>world := w\<rparr>)
         | Returned response w \<Rightarrow>
             (let s2 = s1\<lparr>world := w\<rparr>
              in if response = py ''Success'' then
                   (let s3 = s2\<lparr>prompt_response_pairs :=
                                  prompt_response_pairs s2 @ [(prompt, last_response E w)]\<rparr>
                    in case time_sleep E (sleep a) (world s3) of
                         Raised e w' \<Rightarrow> Raised e (s3\<lparr>world := w'\<rparr>)
                       | Returned u w' \<Rightarrow> for_prompts E a rest (s3\<lparr>world := w'\<rparr>))
                 else report_failure E prompt response s2))"

text \<open>The \<open>try\<close> statement around the loop (lines 165 to 185).\<close>

definition try_loop ::
  "('w, 'f) env \<Rightarrow> 'f args \<Rightarrow> pystr list \<Rightarrow> 'w state \<Rightarrow> (unit, 'w state) outcome"
where
  "try_loop E a prompts s =
     (case for_prompts E a prompts s of
        Returned u s' \<Rightarrow> Returned () s'
      | Raised e s' \<Rightarrow>
          if e = KeyboardInterrupt
          then Returned () (logger WARNING (py ''Interrupted by user. Saving partial results...'') s')
          else Raised e s')"

text \<open>What follows the loop (lines 187 to 193).\<close>

definition save_or_warn :: "('w, 'f) env \<Rightarrow> 'f args \<Rightarrow> 'w state \<Rightarrow> (unit, 'w state) outcome" where
  "save_or_warn E a s =
     (if prompt_response_pairs s \<noteq> [] then
        save_responses E (prompt_response_pairs s) (output_filename a) (output_format a)
          (logger INFO (py ''Saving responses to '' @ output_filename a @ py '' (format: '' @ output_format a @ py '')'') s)
      else Returned () (logger WARNING (py ''No responses to save.'') s))"

text \<open>
  \<open>main\<close> from line 158 on, with the parsed arguments as input. Lines 139 to 156 copy
  the sampling parameters into locals and emit one \<open>DEBUG\<close> record, which are left out.
\<close>

definition main :: "('w, 'f) env \<Rightarrow> pystr list \<Rightarrow> 'f args \<Rightarrow> 'w state \<Rightarrow> (unit, 'w state) outcome" where
  "main E PROMPTS a s =
     (let s0 = s\<lparr>prompt_response_pairs := []\<rparr>
      in case load_prompts PROMPTS (prompt_file a) (disk s0) of
           Inl e \<Rightarrow> Raised e s0
         | Inr prompts \<Rightarrow>
             (case ChatGPTClient E (ini a) (world s0) of
                Raised e w \<Rightarrow> Raised e (s0\<lparr>world := w\<rparr>)
              | Returned u w \<Rightarrow>
                  (case try_loop E a prompts (s0\<lparr>world := w\<rparr>) of
                     Raised e s' \<Rightarrow> Raised e s'
                   | Returned v s' \<Rightarrow> save_or_warn E a s')))"

section \<open>Notions the properties are stated with\<close>

text \<open>The state an outcome leaves behind, whether the call returned or raised.\<close>

definition state_of :: "('a, 's) outcome \<Rightarrow> 's" where
  "state_of r = (case r of Returned v s \<Rightarrow> s | Raised e s \<Rightarrow> s)"

text \<open>The exception an outcome raised, if it raised one.\<close>

definition raised :: "('a, 's) outcome \<Rightarrow> exn option" where
  "raised r = (case r of Returned v s \<Rightarrow> None | Raised e s \<Rightarrow> Some e)"

text \<open>
  \<open>after_successes E a prompts w = Some w'\<close> says that, starting from the world \<open>w\<close>,
  the client returns \<open>'Success'\<close> for each of \<open>prompts\<close> in turn and each pacing sleep
  returns, and that \<open>w'\<close> is the world after the last sleep. It is \<open>None\<close> as soon as a
  call returns anything else or a call or a sleep raises.
\<close>

fun after_successes :: "('w, 'f) env \<Rightarrow> 'f args \<Rightarrow> pystr list \<Rightarrow> 'w \<Rightarrow> 'w option" where
  "after_successes E a [] w = Some w"
| "after_successes E a (prompt # rest) w =
     (case get_response E prompt (temperature a) (top_p a) (frequency_penalty a) (presence_penalty a) w of
        Raised e w1 \<Rightarrow> None
      | Returned response w1 \<Rightarrow>
          if response = py ''Success'' then
            (case time_sleep E (sleep a) w1 of
               Raised e w2 \<Rightarrow> None
             | Returned u w2 \<Rightarrow> after_successes E a rest w2)
          else None)"

text \<open>
  The prompt source as the specification words it: split the file into lines, strip
  whitespace from each, drop the empty ones, keep the order.
\<close>

definition nonblank_trimmed_lines :: "pystr \<Rightarrow> pystr list" where
  "nonblank_trimmed_lines content =
     filter (\<lambda>line. line \<noteq> []) (map strip (iter_lines (universal_newlines content)))"

subsection \<open>Reading the text and markdown formats back\<close>

text \<open>
  Both formats write a pair as a block of the same shape: a header, the prompt, a
  separator, the response, a terminator.
\<close>

definition block_of :: "pystr \<Rightarrow> pystr \<Rightarrow> pystr \<Rightarrow> pystr \<times> pystr \<Rightarrow> pystr" where
  "block_of header sep term pr = header @ fst pr @ sep @ snd pr @ term"

text \<open>
  The program has no reader for its own output. The reader below goes by the
  delimiters alone. \<open>splits d cs\<close> lists every way of cutting \<open>cs\<close> at an occurrence of
  the delimiter \<open>d\<close>, as the part before and the part after it.
\<close>

fun splits :: "pystr \<Rightarrow> pystr \<Rightarrow> (pystr \<times> pystr) list" where
  "splits d [] = (if d = [] then [([], [])] else [])"
| "splits d (c # cs) =
     (if take (length d) (c # cs) = d then [([], drop (length d) (c # cs))] else []) @
     map (\<lambda>(l, r). (c # l, r)) (splits d cs)"

text \<open>
  \<open>parses header sep term n cs\<close> lists every sequence of at most \<open>n\<close> pairs whose blocks,
  put together, are \<open>cs\<close>: the text is empty, or it starts with the header, is cut at a
  separator and then at a terminator, and what follows is read in the same way.
\<close>

fun parses :: "pystr \<Rightarrow> pystr \<Rightarrow> pystr \<Rightarrow> nat \<Rightarrow> pystr \<Rightarrow> (pystr \<times> pystr) list list" where
  "parses header sep term 0 cs = (if cs = [] then [[]] else [])"
| "parses header sep term (Suc n) cs =
     (if cs = [] then [[]]
      else if take (length header) cs = header then
        concat (map (\<lambda>(p, t1).
          concat (map (\<lambda>(r, t2).
            map (\<lambda>ps. (p, r) # ps) (parses header sep term n t2))
            (splits term t1)))
          (splits sep (drop (length header) cs)))
      else [])"

text \<open>
  \<open>parses\<close> lists the readings with the earliest cuts first. The reader takes the first
  one: it cuts at the earliest separator and the earliest terminator after which the
  rest of the text can still be read to its end. A text has more blocks than characters
  in no reading, so its length bounds the number of pairs.
\<close>

definition read_blocks :: "pystr \<Rightarrow> pystr \<Rightarrow> pystr \<Rightarrow> pystr \<Rightarrow> (pystr \<times> pystr) list option" where
  "read_blocks header sep term cs =
     (case parses header sep term (length cs) cs of
        [] \<Rightarrow> None
      | pairs # others \<Rightarrow> Some pairs)"

text \<open>
  A content holds the delimiter \<open>d\<close> only where it is looked for when the content
  followed by \<open>d\<close> can be cut at \<open>d\<close> in one way only, at its end.
\<close>

definition no_early :: "pystr \<Rightarrow> pystr \<Rightarrow> bool" where
  "no_early d content = (splits d (content @ d) = [(content, [])])"

text \<open>
  Two sequences of pairs that give the same text differ in where they cut it. One cuts
  earlier than the other when, in the first pair where their lengths differ, its prompt
  is shorter, or its prompt is as long and its response is shorter.
\<close>

fun earlier :: "(pystr \<times> pystr) list \<Rightarrow> (pystr \<times> pystr) list \<Rightarrow> bool" where
  "earlier [] [] = False"
| "earlier [] (b # qs) = True"
| "earlier (a # ps) [] = False"
| "earlier (a # ps) (b # qs) =
     (length (fst a) < length (fst b) \<or>
      (length (fst a) = length (fst b) \<and>
        (length (snd a) < length (snd b) \<or>
         (length (snd a) = length (snd b) \<and> earlier ps qs))))"

definition read_txt :: "pystr \<Rightarrow> (pystr \<times> pystr) list option" where
  "read_txt = read_blocks (py ''Prompt: '') ([NL] @ py ''Response: '') [NL, NL]"

definition read_md :: "pystr \<Rightarrow> (pystr \<times> pystr) list option" where
  "read_md =
     read_blocks (py ''## Prompt'' @ [NL]) ([NL, NL] @ py ''### Response'' @ [NL]) [NL, NL]"

section \<open>A scripted client for the examples\<close>

text \<open>
  A world that plays a script: the answers of the successive \<open>get_response\<close> calls (a
  return value together with the text left in \<open>last_response\<close>, or an interrupt), and
  for the successive sleeps whether an interrupt arrives during them. The third
  component is the current \<open>last_response\<close>. Its console renders every string but
  those that hold the closing tag \<open>[/INST]\<close>, on which it raises \<open>MarkupError\<close> as the
  \<open>print\<close> of \<open>rich\<close> does.
\<close>

datatype event = Reply pystr pystr | Interrupt

type_synonym script = "event list \<times> bool list \<times> pystr"

definition scripted :: "(script, int) env" where
  "scripted =
     \<lparr>ChatGPTClient = (\<lambda>inifile w. Returned () w),
      get_response = (\<lambda>prompt t p f q w.
         case w of (calls, sleeps, current) \<Rightarrow>
           (case calls of
              [] \<Rightarrow> Raised OtherException w
            | Interrupt # later \<Rightarrow> Raised KeyboardInterrupt (later, sleeps, current)
            | Reply r txt # later \<Rightarrow> Returned r (later, sleeps, txt))),
      last_response = (\<lambda>w. case w of (calls, sleeps, current) \<Rightarrow> current),
      time_sleep = (\<lambda>secs w.
         case w of (calls, sleeps, current) \<Rightarrow>
           (case sleeps of
              [] \<Rightarrow> Returned () w
            | b # bs \<Rightarrow>
                if b then Raised KeyboardInterrupt (calls, bs, current)
                else Returned () (calls, bs, current))),
      save_responses_to_docx = (\<lambda>pairs filename d. Returned () d),
      rich_print = (\<lambda>msg. if splits (py ''[/INST]'') msg = [] then None else Some MarkupError)\<rparr>"

definition demo_args :: "pystr \<Rightarrow> int args" where
  "demo_args fmt =
     \<lparr>ini = py ''ai.ini'', sleep = 1, output_filename = py ''out'', output_format = fmt,
      prompt_file = None, debug = False, temperature = 1, top_p = 1,
      frequency_penalty = 0, presence_penalty = 0\<rparr>"

definition empty_disk :: filesystem where
  "empty_disk =
     \<lparr>files = (\<lambda>path. None), writable = (\<lambda>path. True), open_error = (\<lambda>path. OSError)\<rparr>"

definition start :: "script \<Rightarrow> script state" where
  "start w = \<lparr>world = w, disk = empty_disk, log = [], stdout = [], prompt_response_pairs = []\<rparr>"

text \<open>A disk with one prompt file, whose lines are \<open>a\<close>, an empty line, two blanks, and \<open>b\<close>.\<close>

definition demo_file :: filesystem where
  "demo_file =
     \<lparr>files = (\<lambda>path. if path = py ''prompts.txt''
                        then Some (py ''a'' @ [NL, NL] @ py ''  '' @ [NL] @ py ''b'' @ [NL])
                        else None),
      writable = (\<lambda>path. True), open_error = (\<lambda>path. OSError)\<rparr>"

text \<open>A disk on which the output file of an earlier run is still there.\<close>

definition stale_disk :: filesystem where
  "stale_disk =
     \<lparr>files = (\<lambda>path. if path = py ''out'' then Some (py ''stale'') else None),
      writable = (\<lambda>path. True), open_error = (\<lambda>path. OSError)\<rparr>"

section \<open>Basic facts\<close>

lemma py_eq_iff [simp]: "py a = py b \<longleftrightarrow> a = b"
  unfolding py_def by (simp add: inj_map_eq_map inj_def)

lemma py_not_Nil [simp]: "py (c # cs) \<noteq> []"
  by (simp add: py_def)

lemma state_of_simps [simp]: "state_of (Returned v s) = s" "state_of (Raised e s) = s"
  by (simp_all add: state_of_def)

lemma logger_simps [simp]:
  "world (logger l m s) = world s" "disk (logger l m s) = disk s"
  "stdout (logger l m s) = stdout s" "prompt_response_pairs (logger l m s) = prompt_response_pairs s"
  "log (logger l m s) = log s @ [(l, m)]"
  by (simp_all add: logger_def)

lemma print_rendered:
  "rich_print E msg = None \<Longrightarrow> print E msg s = Returned () (s\<lparr>stdout := stdout s @ [msg]\<rparr>)"
  by (simp add: print_def)

lemma print_keeps [simp]:
  "world (state_of (print E msg s)) = world s" "disk (state_of (print E msg s)) = disk s"
  "prompt_response_pairs (state_of (print E msg s)) = prompt_response_pairs s"
  "log (state_of (print E msg s)) = log s"
  by (simp_all add: print_def split: option.splits)

text \<open>
  Reporting a failed completion adds the two error records and changes neither the
  world, nor the file system, nor the pairs, whether its prints raise or not.
\<close>

lemma report_failure_state [simp]:
  "world (state_of (report_failure E prompt response s)) = world s"
  "disk (state_of (report_failure E prompt response s)) = disk s"
  "prompt_response_pairs (state_of (report_failure E prompt response s)) = prompt_response_pairs s"
  "log (state_of (report_failure E prompt response s)) =
     log s @ [(ERROR, py ''Error generating response for prompt: '' @ prompt),
              (ERROR, py ''Exiting due to error: '' @ response)]"
  by (simp_all add: report_failure_def print_def Let_def split: option.splits)

lemma report_failure_rendered:
  assumes "rich_print E (py ''[red]Error generating response for prompt: '' @ prompt @ py ''[/red]'') = None"
    and "rich_print E (py ''[red]Exiting due to error:[/red] '' @ response) = None"
  shows "\<exists>s'. report_failure E prompt response s = Returned () s'"
  using assms by (simp add: report_failure_def print_def Let_def)

lemma demo_args_simps [simp]:
  "ini (demo_args fmt) = py ''ai.ini''" "sleep (demo_args fmt) = 1"
  "output_filename (demo_args fmt) = py ''out''" "output_format (demo_args fmt) = fmt"
  "prompt_file (demo_args fmt) = None" "temperature (demo_args fmt) = 1" "top_p (demo_args fmt) = 1"
  "frequency_penalty (demo_args fmt) = 0" "presence_penalty (demo_args fmt) = 0"
  by (simp_all add: demo_args_def)

lemma scripted_simps [simp]:
  "ChatGPTClient scripted inifile w = Returned () w"
  "get_response scripted prompt t p f q ([], sleeps, current) = Raised OtherException ([], sleeps, current)"
  "get_response scripted prompt t p f q (Interrupt # later, sleeps, current) =
     Raised KeyboardInterrupt (later, sleeps, current)"
  "get_response scripted prompt t p f q (Reply r txt # later, sleeps, current) =
     Returned r (later, sleeps, txt)"
  "last_response scripted (calls, sleeps, current) = current"
  "time_sleep scripted secs (calls, [], current) = Returned () (calls, [], current)"
  "time_sleep scripted secs (calls, True # bs, current) = Raised KeyboardInterrupt (calls, bs, current)"
  "time_sleep scripted secs (calls, False # bs, current) = Returned () (calls, bs, current)"
  "save_responses_to_docx scripted pairs filename d = Returned () d"
  "rich_print scripted msg = (if splits (py ''[/INST]'') msg = [] then None else Some MarkupError)"
  by (simp_all add: scripted_def)

lemma start_simps [simp]:
  "world (start w) = w" "disk (start w) = empty_disk" "log (start w) = []" "stdout (start w) = []"
  "prompt_response_pairs (start w) = []"
  by (simp_all add: start_def)

lemma empty_disk_simps [simp]: "files empty_disk path = None" "writable empty_disk path"
  by (simp_all add: empty_disk_def)

section \<open>Properties of the prompt source\<close>

text \<open>The lines \<open>iter_lines\<close> yields are a split of the text: put together they give it back.\<close>

lemma concat_iter_lines: "concat (iter_lines cs) = cs"
  by (induction cs) (auto split: list.splits)

text \<open>No line is empty, and a newline can only be the last character of a line.\<close>

lemma iter_lines_newlines:
  "l \<in> set (iter_lines cs) \<Longrightarrow> l \<noteq> [] \<and> NL \<notin> set (butlast l)"
proof (induction cs arbitrary: l)
  case Nil
  then show ?case by simp
next
  case (Cons c cs)
  show ?case
  proof (cases "c = NL")
    case True
    with Cons show ?thesis by auto
  next
    case False
    show ?thesis
    proof (cases "iter_lines cs")
      case Nil
      with Cons.prems False show ?thesis by simp
    next
      case split: (Cons line lines)
      with Cons.prems False have "l = c # line \<or> l \<in> set lines" by auto
      moreover have "line \<noteq> [] \<and> NL \<notin> set (butlast line)"
        using Cons.IH[of line] split by simp
      moreover have "l \<in> set lines \<Longrightarrow> l \<noteq> [] \<and> NL \<notin> set (butlast l)"
        using Cons.IH[of l] split by simp
      ultimately show ?thesis using False by auto
    qed
  qed
qed

text \<open>A stripped line that is not empty starts and ends with a character that is no whitespace.\<close>

lemma strip_not_empty:
  assumes "strip line \<noteq> []"
  shows "\<not> isspace (hd (strip line)) \<and> \<not> isspace (last (strip line))"
proof -
  let ?m = "dropWhile isspace line"
  let ?k = "dropWhile isspace (rev ?m)"
  have k: "?k \<noteq> []" using assms by (simp add: strip_def)
  have m: "?m \<noteq> []"
  proof
    assume e: "?m = []"
    show False using k unfolding e by simp
  qed
  have "last (strip line) = hd ?k" unfolding strip_def by (rule last_rev)
  moreover have "\<not> isspace (hd ?k)" using k by (rule hd_dropWhile)
  moreover have "hd (strip line) = last ?k" unfolding strip_def by (rule hd_rev)
  moreover have "last ?k = last (rev ?m)"
    using k by (metis append_Nil2 last_appendR takeWhile_dropWhile_id)
  moreover have "last (rev ?m) = hd ?m" by (rule last_rev)
  moreover have "\<not> isspace (hd ?m)" using m by (rule hd_dropWhile)
  ultimately show ?thesis by simp
qed

text \<open>
  Claim C5. For a prompt file that can be opened and read, \<open>load_prompts\<close> with its path
  returns exactly the whitespace-trimmed, non-blank lines of the file, in file order:
  the list the specification describes (lines, stripped, empty ones dropped), every
  element of which is non-empty and has no whitespace at either end. The path of a file
  is never the empty string, which \<open>load_prompts\<close> treats like no path.
\<close>

theorem load_prompts_from_file:
  assumes "path \<noteq> []"
    and "files d path = Some content"
  shows "load_prompts PROMPTS (Some path) d = Inr (nonblank_trimmed_lines content) \<and>
         (\<forall>p \<in> set (nonblank_trimmed_lines content).
            p \<noteq> [] \<and> \<not> isspace (hd p) \<and> \<not> isspace (last p))"
proof -
  have "map strip (filter (\<lambda>line. strip line \<noteq> []) ls) = filter (\<lambda>line. line \<noteq> []) (map strip ls)" for ls
    by (simp add: filter_map comp_def)
  then have "load_prompts PROMPTS (Some path) d = Inr (nonblank_trimmed_lines content)"
    using assms by (simp add: load_prompts_def open_r_def nonblank_trimmed_lines_def)
  moreover have "p \<noteq> [] \<and> \<not> isspace (hd p) \<and> \<not> isspace (last p)"
    if "p \<in> set (nonblank_trimmed_lines content)" for p
  proof -
    from that obtain line where "p = strip line" "strip line \<noteq> []"
      by (auto simp: nonblank_trimmed_lines_def)
    then show ?thesis using strip_not_empty by simp
  qed
  ultimately show ?thesis by blast
qed

text \<open>The example of the specification: the lines \<open>a\<close>, empty, two blanks, \<open>b\<close> give \<open>a\<close> and \<open>b\<close>.\<close>

theorem load_prompts_from_file_witness:
  "py ''prompts.txt'' \<noteq> [] \<and>
   files demo_file (py ''prompts.txt'') = Some (py ''a'' @ [NL, NL] @ py ''  '' @ [NL] @ py ''b'' @ [NL]) \<and>
   load_prompts [] (Some (py ''prompts.txt'')) demo_file = Inr [py ''a'', py ''b'']"
proof -
  let ?content = "py ''a'' @ [NL, NL] @ py ''  '' @ [NL] @ py ''b'' @ [NL]"
  have h1: "py ''prompts.txt'' \<noteq> []" by simp
  have h2: "files demo_file (py ''prompts.txt'') = Some ?content" by (simp add: demo_file_def)
  have "nonblank_trimmed_lines ?content = [py ''a'', py ''b'']"
    by (simp add: nonblank_trimmed_lines_def py_def NL_def CR_def strip_def isspace_def)
  with load_prompts_from_file[OF h1 h2, of "[]"] h1 h2 show ?thesis by simp
qed

text \<open>
  Claim C6, as amended. When no path is given, \<open>load_prompts\<close> returns the built-in
  sequence unchanged, whatever it holds and in its own order. This branch filters
  nothing, so a blank string in the built-in sequence is a blank string in the output.
\<close>

theorem load_prompts_builtin_unchanged: "load_prompts PROMPTS None d = Inr PROMPTS"
  by (simp add: load_prompts_def)

text \<open>
  Claim C6 as stated fails: with a built-in sequence whose second entry is two blanks
  (the blank line that \<open>load_prompts\<close> drops from a file), the output has that entry
  too, and stripping it leaves nothing.
\<close>

theorem load_prompts_builtin_keeps_blank:
  "load_prompts [py ''a'', py ''  ''] None empty_disk = Inr [py ''a'', py ''  ''] \<and>
   strip ([py ''a'', py ''  ''] ! 1) = []"
  by (simp add: load_prompts_def strip_def py_def isspace_def)

section \<open>Properties of the processing loop\<close>

text \<open>The loop does not touch the file system.\<close>

lemma for_prompts_disk: "disk (state_of (for_prompts E a prompts s)) = disk s"
  by (induction prompts arbitrary: s) (auto simp: Let_def split: outcome.splits)

lemma try_loop_disk [simp]:
  "disk (state_of (try_loop E a prompts s)) = disk s"
  using for_prompts_disk[of E a prompts s]
  by (cases "for_prompts E a prompts s") (auto simp: try_loop_def)

text \<open>
  Whatever happens, the loop only appends to the pairs, and the prompts of the pairs it
  has appended are a prefix of the prompts it was given.
\<close>

lemma for_prompts_appends:
  "\<exists>new. prompt_response_pairs (state_of (for_prompts E a prompts s)) = prompt_response_pairs s @ new"
proof (induction prompts arbitrary: s)
  case Nil
  then show ?case by simp
next
  case (Cons p ps)
  let ?s1 = "logger INFO (py ''Sending prompt: '' @ p) s"
  show ?case
  proof (cases "get_response E p (temperature a) (top_p a) (frequency_penalty a) (presence_penalty a) (world s)")
    case (Raised e w)
    then show ?thesis by (simp add: Let_def)
  next
    case (Returned response w)
    show ?thesis
    proof (cases "response = py ''Success''")
      case False
      with Returned show ?thesis by (simp add: Let_def)
    next
      case True
      let ?s3 = "?s1\<lparr>world := w, prompt_response_pairs := prompt_response_pairs ?s1 @ [(p, last_response E w)]\<rparr>"
      show ?thesis
      proof (cases "time_sleep E (sleep a) w")
        case (Raised e w')
        with Returned True show ?thesis by (simp add: Let_def)
      next
        case nap: (Returned u w')
        from Cons.IH[of "?s3\<lparr>world := w'\<rparr>"] obtain new where
          "prompt_response_pairs (state_of (for_prompts E a ps (?s3\<lparr>world := w'\<rparr>))) =
             prompt_response_pairs (?s3\<lparr>world := w'\<rparr>) @ new"
          by blast
        with Returned True nap show ?thesis by (simp add: Let_def)
      qed
    qed
  qed
qed

lemma try_loop_pairs:
  "prompt_response_pairs (state_of (try_loop E a prompts s)) =
   prompt_response_pairs (state_of (for_prompts E a prompts s))"
  by (cases "for_prompts E a prompts s") (auto simp: try_loop_def)

lemma for_prompts_prefix:
  "\<exists>k \<le> length prompts.
     map fst (prompt_response_pairs (state_of (for_prompts E a prompts s))) =
       map fst (prompt_response_pairs s) @ take k prompts"
proof (induction prompts arbitrary: s)
  case Nil
  then show ?case by simp
next
  case (Cons p ps)
  let ?s1 = "logger INFO (py ''Sending prompt: '' @ p) s"
  show ?case
  proof (cases "get_response E p (temperature a) (top_p a) (frequency_penalty a) (presence_penalty a) (world s)")
    case (Raised e w)
    then show ?thesis by (intro exI[of _ 0]) (simp add: Let_def)
  next
    case (Returned response w)
    show ?thesis
    proof (cases "response = py ''Success''")
      case False
      with Returned show ?thesis by (intro exI[of _ 0]) (simp add: Let_def)
    next
      case True
      let ?s3 = "?s1\<lparr>world := w, prompt_response_pairs := prompt_response_pairs ?s1 @ [(p, last_response E w)]\<rparr>"
      show ?thesis
      proof (cases "time_sleep E (sleep a) w")
        case (Raised e w')
        with Returned True show ?thesis by (intro exI[of _ 1]) (simp add: Let_def)
      next
        case nap: (Returned u w')
        from Cons.IH[of "?s3\<lparr>world := w'\<rparr>"] obtain k where
          k: "k \<le> length ps"
          "map fst (prompt_response_pairs (state_of (for_prompts E a ps (?s3\<lparr>world := w'\<rparr>)))) =
             map fst (prompt_response_pairs (?s3\<lparr>world := w'\<rparr>)) @ take k ps"
          by blast
        with Returned True nap show ?thesis by (intro exI[of _ "Suc k"]) (simp add: Let_def)
      qed
    qed
  qed
qed

text \<open>
  A run over prompts that all succeed is a run over the remaining prompts from the
  state reached after them.
\<close>

lemma for_prompts_after_successes:
  assumes "after_successes E a before (world s) = Some w"
  shows "\<exists>s'. (\<forall>rest. for_prompts E a (before @ rest) s = for_prompts E a rest s') \<and> world s' = w \<and>
           map fst (prompt_response_pairs s') = map fst (prompt_response_pairs s) @ before \<and>
           disk s' = disk s \<and> stdout s' = stdout s"
  using assms
proof (induction before arbitrary: s)
  case Nil
  then show ?case by auto
next
  case (Cons p ps)
  let ?s1 = "logger INFO (py ''Sending prompt: '' @ p) s"
  from Cons.prems obtain w1 w2 where
    call: "get_response E p (temperature a) (top_p a) (frequency_penalty a) (presence_penalty a) (world s) = Returned (py ''Success'') w1"
    and nap: "time_sleep E (sleep a) w1 = Returned () w2"
    and more: "after_successes E a ps w2 = Some w"
    by (auto split: outcome.splits if_splits)
  let ?s3 = "?s1\<lparr>world := w1, prompt_response_pairs := prompt_response_pairs ?s1 @ [(p, last_response E w1)], world := w2\<rparr>"
  have step: "for_prompts E a ((p # ps) @ rest) s = for_prompts E a (ps @ rest) ?s3" for rest
    using call nap by (simp add: Let_def)
  have "after_successes E a ps (world ?s3) = Some w" using more by simp
  from Cons.IH[OF this] obtain s' where
    "\<forall>rest. for_prompts E a (ps @ rest) ?s3 = for_prompts E a rest s'" "world s' = w"
    "map fst (prompt_response_pairs s') = map fst (prompt_response_pairs ?s3) @ ps"
    "disk s' = disk ?s3" "stdout s' = stdout ?s3"
    by blast
  then show ?case using step by (intro exI[of _ s']) simp
qed

lemma try_loop_after_successes:
  assumes "after_successes E a before (world s) = Some w"
  obtains s' where "\<And>rest. try_loop E a (before @ rest) s = try_loop E a rest s'" "world s' = w"
    "map fst (prompt_response_pairs s') = map fst (prompt_response_pairs s) @ before"
    "disk s' = disk s" "stdout s' = stdout s"
proof -
  from for_prompts_after_successes[OF assms] obtain s' where
    "\<forall>rest. for_prompts E a (before @ rest) s = for_prompts E a rest s'" "world s' = w"
    "map fst (prompt_response_pairs s') = map fst (prompt_response_pairs s) @ before"
    "disk s' = disk s" "stdout s' = stdout s"
    by blast
  then show ?thesis by (intro that[of s']) (simp_all add: try_loop_def)
qed

text \<open>
  Claim C1. When the client reports success for every prompt (each call returns
  \<open>'Success'\<close> and nothing interrupts the run), the loop returns, the result has as many
  pairs as there are prompts, and the prompt of the i-th pair is the i-th prompt.
\<close>

theorem all_success_run:
  assumes "after_successes E a prompts (world s) = Some w"
    and "prompt_response_pairs s = []"
  shows "\<exists>s'. try_loop E a prompts s = Returned () s' \<and>
           length (prompt_response_pairs s') = length prompts \<and>
           map fst (prompt_response_pairs s') = prompts"
proof -
  from try_loop_after_successes[OF assms(1)] obtain s' where
    run: "\<And>rest. try_loop E a (prompts @ rest) s = try_loop E a rest s'"
    and prs: "map fst (prompt_response_pairs s') = map fst (prompt_response_pairs s) @ prompts"
    by blast
  have "try_loop E a prompts s = Returned () s'" using run[of "[]"] by (simp add: try_loop_def)
  moreover have "map fst (prompt_response_pairs s') = prompts" using prs assms(2) by simp
  moreover from this have "length (prompt_response_pairs s') = length prompts"
    by (metis length_map)
  ultimately show ?thesis by auto
qed

text \<open>Two prompts, answered \<open>4\<close> and \<open>Blue\<close>.\<close>

theorem all_success_run_witness:
  "after_successes scripted (demo_args (py ''md''))
      [py ''What is 2+2?'', py ''Name a color'']
      (world (start ([Reply (py ''Success'') (py ''4''), Reply (py ''Success'') (py ''Blue'')], [], [])))
     = Some ([], [], py ''Blue'') \<and>
   prompt_response_pairs (start ([Reply (py ''Success'') (py ''4''), Reply (py ''Success'') (py ''Blue'')], [], [])) = [] \<and>
   (\<exists>s'. try_loop scripted (demo_args (py ''md'')) [py ''What is 2+2?'', py ''Name a color'']
            (start ([Reply (py ''Success'') (py ''4''), Reply (py ''Success'') (py ''Blue'')], [], []))
           = Returned () s' \<and>
         length (prompt_response_pairs s') = length [py ''What is 2+2?'', py ''Name a color''] \<and>
         map fst (prompt_response_pairs s') = [py ''What is 2+2?'', py ''Name a color''])"
proof -
  let ?w = "([Reply (py ''Success'') (py ''4''), Reply (py ''Success'') (py ''Blue'')], [], []) :: script"
  have h1: "after_successes scripted (demo_args (py ''md'')) [py ''What is 2+2?'', py ''Name a color'']
      (world (start ?w)) = Some ([], [], py ''Blue'')"
    by simp
  have h2: "prompt_response_pairs (start ?w) = []" by simp
  from all_success_run[OF h1 h2] h1 h2 show ?thesis by blast
qed

lemma try_loop_world:
  "world (state_of (try_loop E a prompts s)) = world (state_of (for_prompts E a prompts s))"
  by (cases "for_prompts E a prompts s") (auto simp: try_loop_def)

lemma try_loop_log:
  "\<exists>more. log (state_of (try_loop E a prompts s)) = log (state_of (for_prompts E a prompts s)) @ more"
  by (cases "for_prompts E a prompts s") (auto simp: try_loop_def)

text \<open>
  When the call for the first prompt returns anything but \<open>'Success'\<close>, the loop body is
  the report of the failure, and the prompts after it play no part.
\<close>

lemma for_prompts_failure:
  assumes "get_response E prompt (temperature a) (top_p a) (frequency_penalty a) (presence_penalty a) (world s)
             = Returned response w"
    and "response \<noteq> py ''Success''"
  shows "for_prompts E a (prompt # rest) s =
           report_failure E prompt response ((logger INFO (py ''Sending prompt: '' @ prompt) s)\<lparr>world := w\<rparr>)"
  using assms by (simp add: Let_def)

lemma try_loop_failure:
  assumes "get_response E prompt (temperature a) (top_p a) (frequency_penalty a) (presence_penalty a) (world s)
             = Returned response w"
    and "response \<noteq> py ''Success''"
  shows "try_loop E a (prompt # rest) s = try_loop E a [prompt] s"
    and "world (state_of (try_loop E a (prompt # rest) s)) = w"
    and "prompt_response_pairs (state_of (try_loop E a (prompt # rest) s)) = prompt_response_pairs s"
    and "\<exists>more. log (state_of (try_loop E a (prompt # rest) s)) =
           log s @ [(INFO, py ''Sending prompt: '' @ prompt),
                    (ERROR, py ''Error generating response for prompt: '' @ prompt),
                    (ERROR, py ''Exiting due to error: '' @ response)] @ more"
    and "rich_print E (py ''[red]Error generating response for prompt: '' @ prompt @ py ''[/red]'') = None \<Longrightarrow>
         rich_print E (py ''[red]Exiting due to error:[/red] '' @ response) = None \<Longrightarrow>
         \<exists>s'. try_loop E a (prompt # rest) s = Returned () s'"
proof -
  let ?s2 = "(logger INFO (py ''Sending prompt: '' @ prompt) s)\<lparr>world := w\<rparr>"
  note f = for_prompts_failure[OF assms]
  show "try_loop E a (prompt # rest) s = try_loop E a [prompt] s"
    by (simp only: try_loop_def f)
  show "world (state_of (try_loop E a (prompt # rest) s)) = w"
    unfolding try_loop_world f by simp
  show "prompt_response_pairs (state_of (try_loop E a (prompt # rest) s)) = prompt_response_pairs s"
    unfolding try_loop_pairs f by simp
  show "\<exists>more. log (state_of (try_loop E a (prompt # rest) s)) =
           log s @ [(INFO, py ''Sending prompt: '' @ prompt),
                    (ERROR, py ''Error generating response for prompt: '' @ prompt),
                    (ERROR, py ''Exiting due to error: '' @ response)] @ more"
    using try_loop_log[of E a "prompt # rest" s] unfolding f by auto
  show "\<exists>s'. try_loop E a (prompt # rest) s = Returned () s'"
    if "rich_print E (py ''[red]Error generating response for prompt: '' @ prompt @ py ''[/red]'') = None"
      and "rich_print E (py ''[red]Exiting due to error:[/red] '' @ response) = None"
  proof -
    from report_failure_rendered[OF that, of ?s2] obtain s' where
      "report_failure E prompt response ?s2 = Returned () s'" by blast
    then show ?thesis unfolding try_loop_def f by simp
  qed
qed





text \<open>
  Claim C10. A completion counts as successful exactly when the value returned by
  \<open>get_response\<close> is the string \<open>'Success'\<close>. Then the pair appended holds the prompt
  and the \<open>last_response\<close> of the client after the call, not the returned value. Any
  other returned value, whatever it holds, appends nothing, is logged as the error and
  ends the run there: the outcome does not depend on the prompts that follow and the
  world is as the call left it. The loop then returns normally when the two error
  messages are printed.
\<close>

theorem success_is_the_return_value_Success:
  assumes "get_response E prompt (temperature a) (top_p a) (frequency_penalty a) (presence_penalty a) (world s)
             = Returned response w"
  shows
    "(response = py ''Success'' \<longrightarrow>
        (\<exists>new. prompt_response_pairs (state_of (try_loop E a (prompt # rest) s)) =
                  prompt_response_pairs s @ (prompt, last_response E w) # new)) \<and>
     (response \<noteq> py ''Success'' \<longrightarrow>
        try_loop E a (prompt # rest) s = try_loop E a [prompt] s \<and>
        world (state_of (try_loop E a (prompt # rest) s)) = w \<and>
        prompt_response_pairs (state_of (try_loop E a (prompt # rest) s)) = prompt_response_pairs s \<and>
        (\<exists>more. log (state_of (try_loop E a (prompt # rest) s)) =
           log s @ [(INFO, py ''Sending prompt: '' @ prompt),
                    (ERROR, py ''Error generating response for prompt: '' @ prompt),
                    (ERROR, py ''Exiting due to error: '' @ response)] @ more) \<and>
        (rich_print E (py ''[red]Error generating response for prompt: '' @ prompt @ py ''[/red]'') = None \<and>
         rich_print E (py ''[red]Exiting due to error:[/red] '' @ response) = None \<longrightarrow>
           (\<exists>s'. try_loop E a (prompt # rest) s = Returned () s')))"
proof (intro conjI impI)
  assume ok: "response = py ''Success''"
  let ?s3 = "(logger INFO (py ''Sending prompt: '' @ prompt) s)\<lparr>world := w,
     prompt_response_pairs := prompt_response_pairs s @ [(prompt, last_response E w)]\<rparr>"
  show "\<exists>new. prompt_response_pairs (state_of (try_loop E a (prompt # rest) s)) =
                  prompt_response_pairs s @ (prompt, last_response E w) # new"
  proof (cases "time_sleep E (sleep a) w")
    case (Raised e w')
    then show ?thesis using assms ok by (simp add: try_loop_pairs Let_def)
  next
    case (Returned u w')
    from for_prompts_appends[of E a rest "?s3\<lparr>world := w'\<rparr>"] obtain new where
      "prompt_response_pairs (state_of (for_prompts E a rest (?s3\<lparr>world := w'\<rparr>))) =
         prompt_response_pairs (?s3\<lparr>world := w'\<rparr>) @ new"
      by blast
    then show ?thesis using assms ok Returned by (simp add: try_loop_pairs Let_def)
  qed
next
  assume no: "response \<noteq> py ''Success''"
  note stop = try_loop_failure[OF assms no]
  show "try_loop E a (prompt # rest) s = try_loop E a [prompt] s" by (rule stop(1))
  show "world (state_of (try_loop E a (prompt # rest) s)) = w" by (rule stop(2))
  show "prompt_response_pairs (state_of (try_loop E a (prompt # rest) s)) = prompt_response_pairs s"
    by (rule stop(3))
  show "\<exists>more. log (state_of (try_loop E a (prompt # rest) s)) =
           log s @ [(INFO, py ''Sending prompt: '' @ prompt),
                    (ERROR, py ''Error generating response for prompt: '' @ prompt),
                    (ERROR, py ''Exiting due to error: '' @ response)] @ more"
    by (rule stop(4))
next
  assume "response \<noteq> py ''Success''"
    and "rich_print E (py ''[red]Error generating response for prompt: '' @ prompt @ py ''[/red]'') = None \<and>
         rich_print E (py ''[red]Exiting due to error:[/red] '' @ response) = None"
  then show "\<exists>s'. try_loop E a (prompt # rest) s = Returned () s'"
    using try_loop_failure(5)[OF assms] by blast
qed

text \<open>
  In the first run the call returns \<open>'Success'\<close> and leaves \<open>4\<close> in \<open>last_response\<close>: the
  pair holds \<open>4\<close>. In the second the call returns an error text while \<open>last_response\<close>
  holds \<open>'Success'\<close>: nothing is appended.
\<close>

theorem success_is_the_return_value_Success_witness:
  "(\<exists>new. prompt_response_pairs (state_of (try_loop scripted (demo_args (py ''txt''))
               (py ''What is 2+2?'' # [py ''Name a color''])
               (start ([Reply (py ''Success'') (py ''4'')], [], [])))) =
            [] @ (py ''What is 2+2?'', py ''4'') # new) \<and>
   try_loop scripted (demo_args (py ''txt'')) (py ''What is 2+2?'' # [py ''Name a color''])
       (start ([Reply (py ''Invalid API key'') (py ''Success'')], [], []))
     = try_loop scripted (demo_args (py ''txt'')) [py ''What is 2+2?'']
       (start ([Reply (py ''Invalid API key'') (py ''Success'')], [], [])) \<and>
   world (state_of (try_loop scripted (demo_args (py ''txt'')) (py ''What is 2+2?'' # [py ''Name a color''])
       (start ([Reply (py ''Invalid API key'') (py ''Success'')], [], []))))
     = ([], [], py ''Success'') \<and>
   prompt_response_pairs (state_of (try_loop scripted (demo_args (py ''txt''))
       (py ''What is 2+2?'' # [py ''Name a color''])
       (start ([Reply (py ''Invalid API key'') (py ''Success'')], [], [])))) = [] \<and>
   (\<exists>s'. try_loop scripted (demo_args (py ''txt'')) (py ''What is 2+2?'' # [py ''Name a color''])
       (start ([Reply (py ''Invalid API key'') (py ''Success'')], [], [])) = Returned () s')"
proof -
  let ?a = "demo_args (py ''txt'') :: int args"
  let ?wA = "([Reply (py ''Success'') (py ''4'')], [], []) :: script"
  let ?wB = "([Reply (py ''Invalid API key'') (py ''Success'')], [], []) :: script"
  let ?runB = "try_loop scripted ?a (py ''What is 2+2?'' # [py ''Name a color'']) (start ?wB)"
  have a: "get_response scripted (py ''What is 2+2?'') (temperature ?a) (top_p ?a) (frequency_penalty ?a)
             (presence_penalty ?a) (world (start ?wA)) = Returned (py ''Success'') ([], [], py ''4'')"
    by simp
  have b: "get_response scripted (py ''What is 2+2?'') (temperature ?a) (top_p ?a) (frequency_penalty ?a)
             (presence_penalty ?a) (world (start ?wB)) = Returned (py ''Invalid API key'') ([], [], py ''Success'')"
    by simp
  have ne: "py ''Invalid API key'' \<noteq> py ''Success''" by simp
  have r: "rich_print scripted (py ''[red]Error generating response for prompt: '' @ py ''What is 2+2?'' @ py ''[/red]'') = None \<and>
           rich_print scripted (py ''[red]Exiting due to error:[/red] '' @ py ''Invalid API key'') = None"
    by (simp add: py_def)
  have A: "\<exists>new. prompt_response_pairs (state_of (try_loop scripted ?a
               (py ''What is 2+2?'' # [py ''Name a color'']) (start ?wA))) =
            [] @ (py ''What is 2+2?'', py ''4'') # new"
    using success_is_the_return_value_Success[OF a, of "[py ''Name a color'']", THEN conjunct1, THEN mp, OF refl]
    by simp
  note B = success_is_the_return_value_Success[OF b, of "[py ''Name a color'']", THEN conjunct2, THEN mp, OF ne]
  have B1: "?runB = try_loop scripted ?a [py ''What is 2+2?''] (start ?wB)" using B by (rule conjunct1)
  have B2: "world (state_of ?runB) = ([], [], py ''Success'')" using B by blast
  have "prompt_response_pairs (state_of ?runB) = prompt_response_pairs (start ?wB)" using B by blast
  then have B3: "prompt_response_pairs (state_of ?runB) = []" by simp
  have B4: "\<exists>s'. ?runB = Returned () s'" using B r by blast
  show ?thesis using A B1 B2 B3 B4 by simp
qed

section \<open>Properties of the whole run\<close>

text \<open>
  Claim C3. Let the prompts be loaded, the client be built, and the first \<open>K\<close> prompts
  (\<open>before\<close>) succeed. If the call for the next prompt is interrupted, the loop ends
  with exactly \<open>K\<close> pairs, those of the first \<open>K\<close> prompts, and none for the prompt in
  flight; the interruption is logged as a warning. If instead that call succeeds and
  the sleep after it is interrupted, the loop ends with exactly \<open>K + 1\<close> pairs. Either
  way \<open>main\<close> goes on to the step after the loop, and the pairs kept, when there are any,
  are handed to \<open>save_responses\<close> with the output name and format of the arguments.
\<close>

theorem interrupted_run_keeps_pairs:
  assumes "load_prompts PROMPTS (prompt_file a) (disk s) = Inr (before @ prompt # later)"
    and "ChatGPTClient E (ini a) (world s) = Returned () w0"
    and "after_successes E a before w0 = Some w"
  shows
    "(get_response E prompt (temperature a) (top_p a) (frequency_penalty a) (presence_penalty a) w
        = Raised KeyboardInterrupt w1 \<longrightarrow>
        (\<exists>s'. try_loop E a (before @ prompt # later) (s\<lparr>prompt_response_pairs := [], world := w0\<rparr>)
                 = Returned () s' \<and>
              length (prompt_response_pairs s') = length before \<and>
              map fst (prompt_response_pairs s') = before \<and>
              last (log s') = (WARNING, py ''Interrupted by user. Saving partial results...'') \<and>
              main E PROMPTS a s = save_or_warn E a s' \<and>
              (before \<noteq> [] \<longrightarrow>
                 main E PROMPTS a s =
                   save_responses E (prompt_response_pairs s') (output_filename a) (output_format a)
                     (logger INFO (py ''Saving responses to '' @ output_filename a @ py '' (format: '' @
                        output_format a @ py '')'') s')))) \<and>
     (get_response E prompt (temperature a) (top_p a) (frequency_penalty a) (presence_penalty a) w
        = Returned (py ''Success'') w1 \<and>
      time_sleep E (sleep a) w1 = Raised KeyboardInterrupt w2 \<longrightarrow>
        (\<exists>s'. try_loop E a (before @ prompt # later) (s\<lparr>prompt_response_pairs := [], world := w0\<rparr>)
                 = Returned () s' \<and>
              length (prompt_response_pairs s') = Suc (length before) \<and>
              map fst (prompt_response_pairs s') = before @ [prompt] \<and>
              last (log s') = (WARNING, py ''Interrupted by user. Saving partial results...'') \<and>
              main E PROMPTS a s =
                save_responses E (prompt_response_pairs s') (output_filename a) (output_format a)
                  (logger INFO (py ''Saving responses to '' @ output_filename a @ py '' (format: '' @
                     output_format a @ py '')'') s')))"
proof -
  let ?s0 = "s\<lparr>prompt_response_pairs := [], world := w0\<rparr>"
  let ?call = "get_response E prompt (temperature a) (top_p a) (frequency_penalty a) (presence_penalty a) w"
  have "after_successes E a before (world ?s0) = Some w" using assms(3) by simp
  from try_loop_after_successes[OF this] obtain t where
    run: "\<And>rest. try_loop E a (before @ rest) ?s0 = try_loop E a rest t" and wt: "world t = w"
    and prs: "map fst (prompt_response_pairs t) = before"
    by auto
  have len: "length (prompt_response_pairs t) = length before" using prs by (metis length_map)
  have main_eq: "main E PROMPTS a s = save_or_warn E a s'"
    if "try_loop E a (before @ prompt # later) ?s0 = Returned () s'" for s'
    using that assms(1,2) by (simp add: main_def Let_def)
  let ?warn = "logger WARNING (py ''Interrupted by user. Saving partial results...'')"
  let ?t1 = "logger INFO (py ''Sending prompt: '' @ prompt) t"
  show ?thesis
  proof (intro conjI impI)
    assume c: "?call = Raised KeyboardInterrupt w1"
    let ?s' = "?warn (?t1\<lparr>world := w1\<rparr>)"
    have "try_loop E a (prompt # later) t = Returned () ?s'"
      using c wt by (simp add: try_loop_def Let_def)
    then have loop: "try_loop E a (before @ prompt # later) ?s0 = Returned () ?s'"
      using run[of "prompt # later"] by simp
    have saved: "save_or_warn E a ?s' =
        save_responses E (prompt_response_pairs ?s') (output_filename a) (output_format a)
          (logger INFO (py ''Saving responses to '' @ output_filename a @ py '' (format: '' @
             output_format a @ py '')'') ?s')" if "before \<noteq> []"
    proof -
      have "prompt_response_pairs t \<noteq> []" using that prs by auto
      then show ?thesis by (simp add: save_or_warn_def)
    qed
    show "\<exists>s'. try_loop E a (before @ prompt # later) ?s0 = Returned () s' \<and>
              length (prompt_response_pairs s') = length before \<and>
              map fst (prompt_response_pairs s') = before \<and>
              last (log s') = (WARNING, py ''Interrupted by user. Saving partial results...'') \<and>
              main E PROMPTS a s = save_or_warn E a s' \<and>
              (before \<noteq> [] \<longrightarrow>
                 main E PROMPTS a s =
                   save_responses E (prompt_response_pairs s') (output_filename a) (output_format a)
                     (logger INFO (py ''Saving responses to '' @ output_filename a @ py '' (format: '' @
                        output_format a @ py '')'') s'))"
      using loop len prs main_eq[OF loop] saved
      by (intro exI[of _ ?s']) simp
  next
    assume c: "?call = Returned (py ''Success'') w1 \<and> time_sleep E (sleep a) w1 = Raised KeyboardInterrupt w2"
    let ?s' = "?warn (?t1\<lparr>world := w1,
        prompt_response_pairs := prompt_response_pairs t @ [(prompt, last_response E w1)], world := w2\<rparr>)"
    have "try_loop E a (prompt # later) t = Returned () ?s'"
      using c wt by (simp add: try_loop_def Let_def)
    then have loop: "try_loop E a (before @ prompt # later) ?s0 = Returned () ?s'"
      using run[of "prompt # later"] by simp
    have saved: "save_or_warn E a ?s' =
        save_responses E (prompt_response_pairs ?s') (output_filename a) (output_format a)
          (logger INFO (py ''Saving responses to '' @ output_filename a @ py '' (format: '' @
             output_format a @ py '')'') ?s')"
      by (simp add: save_or_warn_def)
    show "\<exists>s'. try_loop E a (before @ prompt # later) ?s0 = Returned () s' \<and>
              length (prompt_response_pairs s') = Suc (length before) \<and>
              map fst (prompt_response_pairs s') = before @ [prompt] \<and>
              last (log s') = (WARNING, py ''Interrupted by user. Saving partial results...'') \<and>
              main E PROMPTS a s =
                save_responses E (prompt_response_pairs s') (output_filename a) (output_format a)
                  (logger INFO (py ''Saving responses to '' @ output_filename a @ py '' (format: '' @
                     output_format a @ py '')'') s')"
      using loop len prs main_eq[OF loop] saved
      by (intro exI[of _ ?s']) simp
  qed
qed


text \<open>
  Three prompts. In the first run the second call is interrupted: one pair is kept and
  saved. In the second run the sleep after the second success is interrupted: two pairs
  are kept and saved.
\<close>

theorem interrupted_run_keeps_pairs_witness:
  "(load_prompts [py ''What is 2+2?'', py ''Name a color'', py ''Name a fruit'']
      (prompt_file (demo_args (py ''txt'')))
      (disk (start ([Reply (py ''Success'') (py ''4''), Interrupt], [], [])))
      = Inr ([py ''What is 2+2?''] @ py ''Name a color'' # [py ''Name a fruit'']) \<and>
    ChatGPTClient scripted (ini (demo_args (py ''txt'')))
      (world (start ([Reply (py ''Success'') (py ''4''), Interrupt], [], [])))
      = Returned () ([Reply (py ''Success'') (py ''4''), Interrupt], [], []) \<and>
    after_successes scripted (demo_args (py ''txt'')) [py ''What is 2+2?'']
      ([Reply (py ''Success'') (py ''4''), Interrupt], [], []) = Some ([Interrupt], [], py ''4'') \<and>
    get_response scripted (py ''Name a color'') 1 1 0 0 ([Interrupt], [], py ''4'')
      = Raised KeyboardInterrupt ([], [], py ''4'') \<and>
    (\<exists>s'. try_loop scripted (demo_args (py ''txt''))
             ([py ''What is 2+2?''] @ py ''Name a color'' # [py ''Name a fruit''])
             ((start ([Reply (py ''Success'') (py ''4''), Interrupt], [], []))
                \<lparr>prompt_response_pairs := [], world := ([Reply (py ''Success'') (py ''4''), Interrupt], [], [])\<rparr>)
            = Returned () s' \<and>
          length (prompt_response_pairs s') = 1 \<and>
          map fst (prompt_response_pairs s') = [py ''What is 2+2?''] \<and>
          main scripted [py ''What is 2+2?'', py ''Name a color'', py ''Name a fruit''] (demo_args (py ''txt''))
              (start ([Reply (py ''Success'') (py ''4''), Interrupt], [], []))
            = save_responses scripted (prompt_response_pairs s') (py ''out'') (py ''txt'')
                (logger INFO (py ''Saving responses to '' @ py ''out'' @ py '' (format: '' @ py ''txt'' @ py '')'') s'))) \<and>
   (load_prompts [py ''What is 2+2?'', py ''Name a color'', py ''Name a fruit'']
      (prompt_file (demo_args (py ''txt'')))
      (disk (start ([Reply (py ''Success'') (py ''4''), Reply (py ''Success'') (py ''Blue'')], [False, True], [])))
      = Inr ([py ''What is 2+2?''] @ py ''Name a color'' # [py ''Name a fruit'']) \<and>
    ChatGPTClient scripted (ini (demo_args (py ''txt'')))
      (world (start ([Reply (py ''Success'') (py ''4''), Reply (py ''Success'') (py ''Blue'')], [False, True], [])))
      = Returned () ([Reply (py ''Success'') (py ''4''), Reply (py ''Success'') (py ''Blue'')], [False, True], []) \<and>
    after_successes scripted (demo_args (py ''txt'')) [py ''What is 2+2?'']
      ([Reply (py ''Success'') (py ''4''), Reply (py ''Success'') (py ''Blue'')], [False, True], [])
      = Some ([Reply (py ''Success'') (py ''Blue'')], [True], py ''4'') \<and>
    get_response scripted (py ''Name a color'') 1 1 0 0 ([Reply (py ''Success'') (py ''Blue'')], [True], py ''4'')
      = Returned (py ''Success'') ([], [True], py ''Blue'') \<and>
    time_sleep scripted 1 ([], [True], py ''Blue'') = Raised KeyboardInterrupt ([], [], py ''Blue'') \<and>
    (\<exists>s'. try_loop scripted (demo_args (py ''txt''))
             ([py ''What is 2+2?''] @ py ''Name a color'' # [py ''Name a fruit''])
             ((start ([Reply (py ''Success'') (py ''4''), Reply (py ''Success'') (py ''Blue'')], [False, True], []))
                \<lparr>prompt_response_pairs := [],
                  world := ([Reply (py ''Success'') (py ''4''), Reply (py ''Success'') (py ''Blue'')], [False, True], [])\<rparr>)
            = Returned () s' \<and>
          length (prompt_response_pairs s') = 2 \<and>
          map fst (prompt_response_pairs s') = [py ''What is 2+2?'', py ''Name a color''] \<and>
          main scripted [py ''What is 2+2?'', py ''Name a color'', py ''Name a fruit''] (demo_args (py ''txt''))
              (start ([Reply (py ''Success'') (py ''4''), Reply (py ''Success'') (py ''Blue'')], [False, True], []))
            = save_responses scripted (prompt_response_pairs s') (py ''out'') (py ''txt'')
                (logger INFO (py ''Saving responses to '' @ py ''out'' @ py '' (format: '' @ py ''txt'' @ py '')'') s')))"
proof -
  let ?a = "demo_args (py ''txt'') :: int args"
  let ?P = "[py ''What is 2+2?'', py ''Name a color'', py ''Name a fruit'']"
  let ?wA = "([Reply (py ''Success'') (py ''4''), Interrupt], [], []) :: script"
  let ?wB = "([Reply (py ''Success'') (py ''4''), Reply (py ''Success'') (py ''Blue'')], [False, True], []) :: script"
  have a1: "load_prompts ?P (prompt_file ?a) (disk (start ?wA))
              = Inr ([py ''What is 2+2?''] @ py ''Name a color'' # [py ''Name a fruit''])"
    by (simp add: load_prompts_def)
  have a2: "ChatGPTClient scripted (ini ?a) (world (start ?wA)) = Returned () ?wA" by simp
  have a3: "after_successes scripted ?a [py ''What is 2+2?''] ?wA = Some ([Interrupt], [], py ''4'')"
    by simp
  have a4: "get_response scripted (py ''Name a color'') (temperature ?a) (top_p ?a) (frequency_penalty ?a)
              (presence_penalty ?a) ([Interrupt], [], py ''4'') = Raised KeyboardInterrupt ([], [], py ''4'')"
    by simp
  have b1: "load_prompts ?P (prompt_file ?a) (disk (start ?wB))
              = Inr ([py ''What is 2+2?''] @ py ''Name a color'' # [py ''Name a fruit''])"
    by (simp add: load_prompts_def)
  have b2: "ChatGPTClient scripted (ini ?a) (world (start ?wB)) = Returned () ?wB" by simp
  have b3: "after_successes scripted ?a [py ''What is 2+2?''] ?wB
              = Some ([Reply (py ''Success'') (py ''Blue'')], [True], py ''4'')"
    by simp
  have b4: "get_response scripted (py ''Name a color'') (temperature ?a) (top_p ?a) (frequency_penalty ?a)
              (presence_penalty ?a) ([Reply (py ''Success'') (py ''Blue'')], [True], py ''4'')
              = Returned (py ''Success'') ([], [True], py ''Blue'') \<and>
            time_sleep scripted (sleep ?a) ([], [True], py ''Blue'') = Raised KeyboardInterrupt ([], [], py ''Blue'')"
    by simp
  let ?run = "[py ''What is 2+2?''] @ py ''Name a color'' # [py ''Name a fruit'']"
  let ?info = "logger INFO (py ''Saving responses to '' @ output_filename ?a @ py '' (format: '' @
                        output_format ?a @ py '')'')"
  have A: "\<exists>s'. try_loop scripted ?a ?run
             ((start ?wA)\<lparr>prompt_response_pairs := [], world := ?wA\<rparr>) = Returned () s' \<and>
          length (prompt_response_pairs s') = 1 \<and>
          map fst (prompt_response_pairs s') = [py ''What is 2+2?''] \<and>
          main scripted ?P ?a (start ?wA)
            = save_responses scripted (prompt_response_pairs s') (py ''out'') (py ''txt'')
                (logger INFO (py ''Saving responses to '' @ py ''out'' @ py '' (format: '' @ py ''txt'' @ py '')'') s')"
    using interrupted_run_keeps_pairs[OF a1 a2 a3, of "([], [], py ''4'')", THEN conjunct1, THEN mp, OF a4]
    apply (elim exE conjE)
    subgoal for s' by (rule exI[of _ s']) simp
    done
  have B: "\<exists>s'. try_loop scripted ?a ?run
             ((start ?wB)\<lparr>prompt_response_pairs := [], world := ?wB\<rparr>) = Returned () s' \<and>
          length (prompt_response_pairs s') = 2 \<and>
          map fst (prompt_response_pairs s') = [py ''What is 2+2?'', py ''Name a color''] \<and>
          main scripted ?P ?a (start ?wB)
            = save_responses scripted (prompt_response_pairs s') (py ''out'') (py ''txt'')
                (logger INFO (py ''Saving responses to '' @ py ''out'' @ py '' (format: '' @ py ''txt'' @ py '')'') s')"
    using interrupted_run_keeps_pairs[OF b1 b2 b3, of "([], [True], py ''Blue'')" "([], [], py ''Blue'')",
        THEN conjunct2, THEN mp, OF b4]
    apply (elim exE conjE)
    subgoal for s' by (rule exI[of _ s']) simp
    done
  show ?thesis using a1 a2 a3 a4 b1 b2 b3 b4 A B by simp
qed

text \<open>
  Claim C9. When the loop has ended (by running out of prompts, by a failed completion
  or by an interrupt) and no pair was accumulated, \<open>main\<close> returns after logging the
  warning \<open>No responses to save.\<close>: \<open>save_responses\<close> is not called, so the log has no
  record of it and the file system is the one \<open>main\<close> started with.
\<close>

theorem no_pairs_no_writer:
  assumes "load_prompts PROMPTS (prompt_file a) (disk s) = Inr prompts"
    and "ChatGPTClient E (ini a) (world s) = Returned () w0"
    and "try_loop E a prompts (s\<lparr>prompt_response_pairs := [], world := w0\<rparr>) = Returned () s'"
    and "prompt_response_pairs s' = []"
  shows "main E PROMPTS a s = Returned () (logger WARNING (py ''No responses to save.'') s') \<and>
         disk (state_of (main E PROMPTS a s)) = disk s \<and>
         log (state_of (main E PROMPTS a s)) = log s' @ [(WARNING, py ''No responses to save.'')]"
proof -
  have m: "main E PROMPTS a s = Returned () (logger WARNING (py ''No responses to save.'') s')"
    using assms by (simp add: main_def Let_def save_or_warn_def)
  have "disk s' = disk s"
    using try_loop_disk[of E a prompts "s\<lparr>prompt_response_pairs := [], world := w0\<rparr>"]
    unfolding assms(3) by simp
  then show ?thesis using m by simp
qed

text \<open>The first call fails: nothing is accumulated, nothing is written, the warning is logged.\<close>

theorem no_pairs_no_writer_witness:
  "load_prompts [py ''What is 2+2?'', py ''Name a color''] (prompt_file (demo_args (py ''txt'')))
      (disk (start ([Reply (py ''Invalid API key'') []], [], [])))
     = Inr [py ''What is 2+2?'', py ''Name a color''] \<and>
   ChatGPTClient scripted (ini (demo_args (py ''txt''))) (world (start ([Reply (py ''Invalid API key'') []], [], [])))
     = Returned () ([Reply (py ''Invalid API key'') []], [], []) \<and>
   (\<exists>s'. try_loop scripted (demo_args (py ''txt'')) [py ''What is 2+2?'', py ''Name a color'']
           ((start ([Reply (py ''Invalid API key'') []], [], []))
              \<lparr>prompt_response_pairs := [], world := ([Reply (py ''Invalid API key'') []], [], [])\<rparr>)
          = Returned () s' \<and>
         prompt_response_pairs s' = []) \<and>
   disk (state_of (main scripted [py ''What is 2+2?'', py ''Name a color''] (demo_args (py ''txt''))
           (start ([Reply (py ''Invalid API key'') []], [], [])))) = empty_disk \<and>
   last (log (state_of (main scripted [py ''What is 2+2?'', py ''Name a color''] (demo_args (py ''txt''))
           (start ([Reply (py ''Invalid API key'') []], [], []))))) = (WARNING, py ''No responses to save.'')"
proof -
  let ?a = "demo_args (py ''txt'') :: int args"
  let ?P = "[py ''What is 2+2?'', py ''Name a color'']"
  let ?w = "([Reply (py ''Invalid API key'') []], [], []) :: script"
  let ?s0 = "(start ?w)\<lparr>prompt_response_pairs := [], world := ?w\<rparr>"
  have h1: "load_prompts ?P (prompt_file ?a) (disk (start ?w)) = Inr ?P"
    by (simp add: load_prompts_def)
  have h2: "ChatGPTClient scripted (ini ?a) (world (start ?w)) = Returned () ?w" by simp
  obtain s' where h3: "try_loop scripted ?a ?P ?s0 = Returned () s'" and h4: "prompt_response_pairs s' = []"
    by (simp add: try_loop_def report_failure_def print_def Let_def py_def)
  note r = no_pairs_no_writer[OF h1 h2 h3 h4]
  have d: "disk (state_of (main scripted ?P ?a (start ?w))) = empty_disk"
    using r[THEN conjunct2, THEN conjunct1] by simp
  have l: "last (log (state_of (main scripted ?P ?a (start ?w)))) = (WARNING, py ''No responses to save.'')"
    unfolding r[THEN conjunct2, THEN conjunct2] by simp
  have e: "\<exists>s'. try_loop scripted ?a ?P ?s0 = Returned () s' \<and> prompt_response_pairs s' = []"
    using h3 h4 by blast
  show ?thesis using h1 h2 e d l by simp
qed

text \<open>
  A failed completion for a prompt that holds a closing tag: the first \<open>print\<close> raises
  \<open>MarkupError\<close>, which \<open>main\<close> does not catch. The pair accumulated before it is never
  handed to \<open>save_responses\<close>, and the file system is left as it was.
\<close>

theorem markup_in_prompt_escapes_main:
  "(\<exists>s'. main scripted [py ''What is 2+2?'', py ''list [/INST] tokens'', py ''Name a fruit'']
            (demo_args (py ''txt''))
            (start ([Reply (py ''Success'') (py ''4''), Reply (py ''Rate limit exceeded'') []], [], []))
          = Raised MarkupError s' \<and>
         prompt_response_pairs s' = [(py ''What is 2+2?'', py ''4'')] \<and>
         disk s' = empty_disk \<and> stdout s' = [])"
  by (simp add: main_def load_prompts_def try_loop_def report_failure_def print_def Let_def py_def)

section \<open>Properties of the output writer\<close>

lemma raised_simps [simp]: "raised (Returned v s) = None" "raised (Raised e s) = Some e"
  by (simp_all add: raised_def)

lemma encodable_append [simp]: "encodable (a @ b) \<longleftrightarrow> encodable a \<and> encodable b"
  by (simp add: encodable_def)

lemma encodable_Nil [simp]: "encodable []"
  by (simp add: encodable_def)

lemma of_char_small: "of_char c < (256 :: nat)"
proof -
  have "(of_char c :: nat) = of_char c mod 256" by simp
  also have "\<dots> < 256" by (rule mod_less_divisor) simp
  finally show ?thesis .
qed

lemma encodable_py [simp]: "encodable (py lit)"
proof -
  have "encodable_char (of_char c)" for c :: char
  proof -
    have "(of_char c :: nat) < 55296" using of_char_small[of c] by linarith
    then show ?thesis by (simp add: encodable_char_def)
  qed
  then show ?thesis by (simp add: encodable_def py_def list_all_iff)
qed

lemma encodable_NL [simp]: "encodable (NL # cs) \<longleftrightarrow> encodable cs"
  by (simp add: encodable_def encodable_char_def NL_def)

lemma encodable_txt_block: "encodable (txt_block (p, r)) \<longleftrightarrow> encodable p \<and> encodable r"
  by (simp add: txt_block_def)

lemma encodable_md_block: "encodable (md_block (p, r)) \<longleftrightarrow> encodable p \<and> encodable r"
  by (simp add: md_block_def)

text \<open>
  When every block can be encoded, writing them one after the other leaves their
  concatenation after what the open file held.
\<close>

lemma write_each_all:
  assumes "\<forall>pr \<in> set pairs. encodable (block pr)" and "files f fn = Some old"
  shows "\<exists>f'. write_each block pairs fn f = Returned () f' \<and>
           files f' = (files f)(fn \<mapsto> old @ concat (map block pairs))"
  using assms
proof (induction pairs arbitrary: f old)
  case Nil
  then show ?case by auto
next
  case (Cons pr pairs)
  let ?g = "f\<lparr>files := (files f)(fn \<mapsto> old @ block pr)\<rparr>"
  have now: "f_write fn (block pr) f = Inr ?g"
    using Cons.prems by (simp add: f_write_def)
  have rest: "\<forall>pr \<in> set pairs. encodable (block pr)" using Cons.prems(1) by simp
  have "files ?g fn = Some (old @ block pr)" by simp
  from Cons.IH[OF rest this] obtain f' where
    run: "write_each block pairs fn ?g = Returned () f'"
    and content: "files f' = (files ?g)(fn \<mapsto> (old @ block pr) @ concat (map block pairs))"
    by blast
  have c: "files f' = (files f)(fn \<mapsto> old @ concat (map block (pr # pairs)))"
    unfolding content by simp
  have r: "write_each block (pr # pairs) fn f = Returned () f'" using now run by simp
  show ?case using r c by blast
qed

lemma write_blocks_content:
  assumes "writable (disk s) fn" and "\<forall>pr \<in> set pairs. encodable (block pr)"
  shows "\<exists>s'. write_blocks block pairs fn s = Returned () s' \<and>
           files (disk s') = (files (disk s))(fn \<mapsto> concat (map block pairs)) \<and>
           log s' = log s \<and> stdout s' = stdout s"
proof -
  let ?f = "(disk s)\<lparr>files := (files (disk s))(fn \<mapsto> [])\<rparr>"
  have "open_w fn (disk s) = Inr ?f" using assms(1) by (simp add: open_w_def)
  moreover from write_each_all[OF assms(2), of ?f fn "[]"] obtain f' where
    "write_each block pairs fn ?f = Returned () f'"
    "files f' = (files ?f)(fn \<mapsto> [] @ concat (map block pairs))"
    by auto
  ultimately show ?thesis by (simp add: write_blocks_def)
qed

text \<open>
  Claim C7, as amended. When the destination can be opened for writing and UTF-8 can
  encode every prompt and every response, the writer returns and the destination then
  holds, whatever it held before, exactly the blocks of the pairs in their order:
  \<open>Prompt: <p>\nResponse: <r>\n\n\<close> for each pair in the \<open>txt\<close> format,
  \<open>## Prompt\n<p>\n\n### Response\n<r>\n\n\<close> for each pair in the \<open>md\<close> format. No other
  file changes.
\<close>

theorem writer_text_and_markdown:
  assumes "writable (disk s) filename"
    and "\<forall>pr \<in> set pairs. encodable (fst pr) \<and> encodable (snd pr)"
  shows
    "(\<exists>s'. save_responses E pairs filename (py ''txt'') s = Returned () s' \<and>
           files (disk s') filename =
             Some (concat (map (\<lambda>(p, r). py ''Prompt: '' @ p @ [NL] @ py ''Response: '' @ r @ [NL, NL]) pairs)) \<and>
           (\<forall>other. other \<noteq> filename \<longrightarrow> files (disk s') other = files (disk s) other)) \<and>
     (\<exists>s'. save_responses E pairs filename (py ''md'') s = Returned () s' \<and>
           files (disk s') filename =
             Some (concat (map (\<lambda>(p, r). py ''## Prompt'' @ [NL] @ p @ [NL, NL] @ py ''### Response'' @ [NL] @ r @ [NL, NL]) pairs)) \<and>
           (\<forall>other. other \<noteq> filename \<longrightarrow> files (disk s') other = files (disk s) other))"
proof -
  have tb: "txt_block = (\<lambda>(p, r). py ''Prompt: '' @ p @ [NL] @ py ''Response: '' @ r @ [NL, NL])"
    by (rule ext) (simp add: txt_block_def)
  have mb: "md_block = (\<lambda>(p, r). py ''## Prompt'' @ [NL] @ p @ [NL, NL] @ py ''### Response'' @ [NL] @ r @ [NL, NL])"
    by (rule ext) (simp add: md_block_def)
  let ?t = "logger INFO (py ''Saving responses to '' @ filename @ py '' in TXT format'') s"
  let ?m = "logger INFO (py ''Saving responses to '' @ filename @ py '' in Markdown format'') s"
  have et: "\<forall>pr \<in> set pairs. encodable (txt_block pr)"
    using assms(2) by (auto simp: encodable_txt_block)
  have em: "\<forall>pr \<in> set pairs. encodable (md_block pr)"
    using assms(2) by (auto simp: encodable_md_block)
  have "writable (disk ?t) filename" "writable (disk ?m) filename" using assms(1) by simp_all
  from write_blocks_content[OF this(1) et] write_blocks_content[OF this(2) em]
  obtain s1 s2 where
    "write_blocks txt_block pairs filename ?t = Returned () s1"
    "files (disk s1) = (files (disk s))(filename \<mapsto> concat (map txt_block pairs))"
    "write_blocks md_block pairs filename ?m = Returned () s2"
    "files (disk s2) = (files (disk s))(filename \<mapsto> concat (map md_block pairs))"
    by auto
  then show ?thesis
    unfolding tb[symmetric] mb[symmetric] by (simp add: save_responses_def)
qed

text \<open>
  The scenario of the specification: two prompts answered \<open>4\<close> and \<open>Blue\<close>, written in
  both formats over the output of an earlier run.
\<close>

theorem writer_text_and_markdown_witness:
  "writable (disk ((start ([], [], []))\<lparr>disk := stale_disk\<rparr>)) (py ''out'') \<and>
   encodable (py ''What is 2+2?'') \<and> encodable (py ''4'') \<and>
   encodable (py ''Name a color'') \<and> encodable (py ''Blue'') \<and>
   files (disk ((start ([], [], []))\<lparr>disk := stale_disk\<rparr>)) (py ''out'') = Some (py ''stale'') \<and>
   files (disk (state_of (save_responses scripted
        [(py ''What is 2+2?'', py ''4''), (py ''Name a color'', py ''Blue'')] (py ''out'') (py ''txt'')
        ((start ([], [], []))\<lparr>disk := stale_disk\<rparr>)))) (py ''out'') =
     Some (py ''Prompt: What is 2+2?'' @ [NL] @ py ''Response: 4'' @ [NL, NL] @
           py ''Prompt: Name a color'' @ [NL] @ py ''Response: Blue'' @ [NL, NL]) \<and>
   files (disk (state_of (save_responses scripted
        [(py ''What is 2+2?'', py ''4''), (py ''Name a color'', py ''Blue'')] (py ''out'') (py ''md'')
        ((start ([], [], []))\<lparr>disk := stale_disk\<rparr>)))) (py ''out'') =
     Some (py ''## Prompt'' @ [NL] @ py ''What is 2+2?'' @ [NL, NL] @ py ''### Response'' @ [NL] @ py ''4'' @ [NL, NL] @
           py ''## Prompt'' @ [NL] @ py ''Name a color'' @ [NL, NL] @ py ''### Response'' @ [NL] @ py ''Blue'' @ [NL, NL])"
proof -
  let ?s = "(start ([], [], []))\<lparr>disk := stale_disk\<rparr> :: script state"
  let ?pairs = "[(py ''What is 2+2?'', py ''4''), (py ''Name a color'', py ''Blue'')]"
  have h: "writable (disk ?s) (py ''out'')" by (simp add: stale_disk_def)
  have old: "files (disk ?s) (py ''out'') = Some (py ''stale'')" by (simp add: stale_disk_def)
  have e: "encodable (py ''What is 2+2?'')" "encodable (py ''4'')"
    "encodable (py ''Name a color'')" "encodable (py ''Blue'')"
    by simp_all
  then have enc: "\<forall>pr \<in> set ?pairs. encodable (fst pr) \<and> encodable (snd pr)" by simp
  from writer_text_and_markdown[OF h enc, of scripted] obtain s1 s2 where
    t: "save_responses scripted ?pairs (py ''out'') (py ''txt'') ?s = Returned () s1"
      "files (disk s1) (py ''out'') =
         Some (concat (map (\<lambda>(p, r). py ''Prompt: '' @ p @ [NL] @ py ''Response: '' @ r @ [NL, NL]) ?pairs))"
    and m: "save_responses scripted ?pairs (py ''out'') (py ''md'') ?s = Returned () s2"
      "files (disk s2) (py ''out'') =
         Some (concat (map (\<lambda>(p, r). py ''## Prompt'' @ [NL] @ p @ [NL, NL] @ py ''### Response'' @ [NL] @ r @ [NL, NL]) ?pairs))"
    by (elim conjE exE)
  show ?thesis unfolding t m state_of_simps using h old e by (simp add: py_def)
qed

text \<open>
  Claim C7 as stated, for every sequence of pairs, fails for a response that UTF-8
  cannot encode. With a lone surrogate in the second response, \<open>f.write\<close> raises
  \<open>UnicodeEncodeError\<close> at the second block: the writer does not return, and the
  destination, emptied when it was opened, holds the first block only.
\<close>

theorem lone_surrogate_stops_the_writer:
  "\<not> encodable [120, 55296, 121] \<and>
   raised (save_responses scripted
        [(py ''What is 2+2?'', py ''4''), (py ''Name a color'', [120, 55296, 121])] (py ''out'') (py ''txt'')
        ((start ([], [], []))\<lparr>disk := stale_disk\<rparr>)) = Some UnicodeEncodeError \<and>
   files (disk (state_of (save_responses scripted
        [(py ''What is 2+2?'', py ''4''), (py ''Name a color'', [120, 55296, 121])] (py ''out'') (py ''txt'')
        ((start ([], [], []))\<lparr>disk := stale_disk\<rparr>)))) (py ''out'') =
     Some (py ''Prompt: What is 2+2?'' @ [NL] @ py ''Response: 4'' @ [NL, NL])"
  by (simp add: save_responses_def write_blocks_def open_w_def f_write_def txt_block_def stale_disk_def
      encodable_def encodable_char_def py_def NL_def)

text \<open>
  Claim C8. For a format that is none of \<open>docx\<close>, \<open>txt\<close>, \<open>md\<close> and \<open>stdout\<close>, the writer
  returns normally after logging one error that names the format. It leaves the file
  system as it was (no file is created or changed) and prints nothing.
\<close>

theorem unknown_format_writes_nothing:
  assumes "fmt \<noteq> py ''docx''" and "fmt \<noteq> py ''txt''" and "fmt \<noteq> py ''md''" and "fmt \<noteq> py ''stdout''"
  shows "\<exists>s'. save_responses E pairs filename fmt s = Returned () s' \<and>
           disk s' = disk s \<and> stdout s' = stdout s \<and>
           log s' = log s @ [(ERROR, py ''Unknown output format: '' @ fmt)]"
  using assms by (simp add: save_responses_def)

text \<open>The format \<open>pdf\<close> of the specification's scenario.\<close>

theorem unknown_format_writes_nothing_witness:
  "py ''pdf'' \<noteq> py ''docx'' \<and> py ''pdf'' \<noteq> py ''txt'' \<and> py ''pdf'' \<noteq> py ''md'' \<and>
   py ''pdf'' \<noteq> py ''stdout'' \<and>
   (\<exists>s'. save_responses scripted [(py ''What is 2+2?'', py ''4'')] (py ''out'') (py ''pdf'') (start ([], [], []))
            = Returned () s' \<and>
         disk s' = empty_disk \<and> stdout s' = [] \<and>
         log s' = [(ERROR, py ''Unknown output format: '' @ py ''pdf'')])"
proof -
  have h: "py ''pdf'' \<noteq> py ''docx''" "py ''pdf'' \<noteq> py ''txt''" "py ''pdf'' \<noteq> py ''md''"
    "py ''pdf'' \<noteq> py ''stdout''"
    by simp_all
  from unknown_format_writes_nothing[OF h, of scripted "[(py ''What is 2+2?'', py ''4'')]" "py ''out''"
      "start ([], [], [])"]
  show ?thesis using h by simp
qed

subsection \<open>Reading the output back\<close>

lemma set_splits: "set (splits d cs) = {(l, r). cs = l @ d @ r}"
proof (induction cs)
  case Nil
  then show ?case by auto
next
  case (Cons c cs)
  have step: "(l, r) \<in> set (splits d (c # cs)) \<longleftrightarrow> c # cs = l @ d @ r" for l r
  proof (cases l)
    case Nil
    have "([], r) \<in> set (splits d (c # cs)) \<longleftrightarrow> take (length d) (c # cs) = d \<and> r = drop (length d) (c # cs)"
      by auto
    also have "\<dots> \<longleftrightarrow> c # cs = d @ r"
      by (metis append_eq_conv_conj)
    finally show ?thesis using Nil by simp
  next
    case front: (Cons x l')
    have "(x # l', r) \<in> set (splits d (c # cs)) \<longleftrightarrow> x = c \<and> (l', r) \<in> set (splits d cs)"
      by auto
    also have "\<dots> \<longleftrightarrow> x = c \<and> cs = l' @ d @ r" using Cons.IH by simp
    finally show ?thesis using front by auto
  qed
  show ?case
  proof (intro set_eqI)
    fix x :: "pystr \<times> pystr"
    obtain l r where x: "x = (l, r)" by (cases x)
    show "x \<in> set (splits d (c # cs)) \<longleftrightarrow> x \<in> {(l, r). c # cs = l @ d @ r}"
      unfolding x using step[of l r] by (simp del: splits.simps)
  qed
qed

lemma block_of_pair: "block_of H D T (p, r) = H @ p @ D @ r @ T"
  by (simp add: block_of_def)

lemma parses_sound:
  "ps \<in> set (parses H D T n cs) \<Longrightarrow> concat (map (block_of H D T) ps) = cs"
proof (induction n arbitrary: ps cs)
  case 0
  then show ?case by (auto split: if_splits)
next
  case (Suc n)
  show ?case
  proof (cases "cs = []")
    case True
    with Suc.prems show ?thesis by simp
  next
    case False
    with Suc.prems have pre: "take (length H) cs = H"
      by (auto split: if_splits)
    from Suc.prems False pre obtain p t1 r t2 qs where
      a: "(p, t1) \<in> set (splits D (drop (length H) cs))"
      and b: "(r, t2) \<in> set (splits T t1)"
      and c: "qs \<in> set (parses H D T n t2)"
      and d: "ps = (p, r) # qs"
      by auto
    from a have "drop (length H) cs = p @ D @ t1" by (simp add: set_splits)
    moreover from b have "t1 = r @ T @ t2" by (simp add: set_splits)
    moreover from Suc.IH[OF c] have "concat (map (block_of H D T) qs) = t2" .
    moreover from pre have "cs = H @ drop (length H) cs" by (metis append_take_drop_id)
    ultimately show ?thesis using d by (simp add: block_of_pair)
  qed
qed

lemma in_concat_map: "y \<in> set xs \<Longrightarrow> x \<in> set (f y) \<Longrightarrow> x \<in> set (concat (map f xs))"
  by auto

lemma parses_step:
  assumes "cs \<noteq> []" and "take (length H) cs = H"
    and "(p, t1) \<in> set (splits D (drop (length H) cs))"
    and "(r, t2) \<in> set (splits T t1)"
    and "qs \<in> set (parses H D T n t2)"
  shows "(p, r) # qs \<in> set (parses H D T (Suc n) cs)"
proof -
  have 1: "(p, r) # qs \<in> set (map (\<lambda>ps. (p, r) # ps) (parses H D T n t2))"
    using assms(5) by simp
  have 2: "(p, r) # qs \<in> set (concat (map (\<lambda>(r, t2). map (\<lambda>ps. (p, r) # ps) (parses H D T n t2)) (splits T t1)))"
    by (rule in_concat_map[OF assms(4)]) (simp only: prod.case 1)
  have 3: "(p, r) # qs \<in> set (concat (map (\<lambda>(p, t1).
          concat (map (\<lambda>(r, t2). map (\<lambda>ps. (p, r) # ps) (parses H D T n t2)) (splits T t1)))
          (splits D (drop (length H) cs))))"
    by (rule in_concat_map[OF assms(3)]) (simp only: prod.case 2)
  have e: "(cs = []) = False" using assms(1) by simp
  show ?thesis
    by (simp only: parses.simps(2) e assms(2) if_False if_True refl 3)
qed

lemma parses_complete:
  assumes "H \<noteq> []" and "length ps \<le> n"
  shows "ps \<in> set (parses H D T n (concat (map (block_of H D T) ps)))"
  using assms(2)
proof (induction ps arbitrary: n)
  case Nil
  then show ?case by (cases n) simp_all
next
  case (Cons pr ps)
  obtain p r where pr: "pr = (p, r)" by (cases pr)
  from Cons.prems obtain m where n: "n = Suc m" and m: "length ps \<le> m" by (cases n) auto
  let ?t2 = "concat (map (block_of H D T) ps)"
  let ?t1 = "r @ T @ ?t2"
  let ?t0 = "p @ D @ ?t1"
  let ?cs = "concat (map (block_of H D T) (pr # ps))"
  have cs: "?cs = H @ ?t0" by (simp add: pr block_of_pair)
  have ne: "?cs \<noteq> []" using assms(1) cs by simp
  have pre: "take (length H) ?cs = H" and rest: "drop (length H) ?cs = ?t0"
    unfolding cs by simp_all
  have a: "(p, ?t1) \<in> set (splits D ?t0)" by (simp add: set_splits)
  have b: "(r, ?t2) \<in> set (splits T ?t1)" by (simp add: set_splits)
  have c: "ps \<in> set (parses H D T m ?t2)" using Cons.IH[OF m] .
  have "(p, r) # ps \<in> set (parses H D T (Suc m) ?cs)"
    by (rule parses_step[OF ne pre _ b c]) (simp only: rest a)
  then show ?case unfolding n pr .
qed

lemma length_blocks:
  assumes "H \<noteq> []"
  shows "length ps \<le> length (concat (map (block_of H D T) ps))"
proof (induction ps)
  case Nil
  then show ?case by simp
next
  case (Cons pr ps)
  have "1 \<le> length (block_of H D T pr)" using assms by (cases H) (simp_all add: block_of_def)
  then show ?case using Cons by simp
qed

lemma set_parses:
  assumes "H \<noteq> []"
  shows "set (parses H D T (length cs) cs) = {ps. concat (map (block_of H D T) ps) = cs}"
proof (intro set_eqI iffI)
  fix ps
  assume "ps \<in> set (parses H D T (length cs) cs)"
  then show "ps \<in> {ps. concat (map (block_of H D T) ps) = cs}" by (simp add: parses_sound)
next
  fix ps
  assume "ps \<in> {ps. concat (map (block_of H D T) ps) = cs}"
  then have e: "concat (map (block_of H D T) ps) = cs" by simp
  then have "length ps \<le> length cs" using length_blocks[OF assms, of ps D T] by simp
  from parses_complete[OF assms this, of D T] show "ps \<in> set (parses H D T (length cs) cs)"
    unfolding e .
qed

lemma take_append_long: "n \<le> length xs \<Longrightarrow> take n (xs @ ys) = take n xs"
  by simp

lemma no_early_Cons:
  assumes "no_early d (c # p)"
  shows "take (length d) (c # p @ d) \<noteq> d" and "no_early d p"
proof -
  let ?front = "if take (length d) (c # p @ d) = d then [([], drop (length d) (c # p @ d))] else []"
  from assms have e: "?front @ map (\<lambda>(l, r). (c # l, r)) (splits d (p @ d)) = [(c # p, [])]"
    by (simp add: no_early_def)
  show n: "take (length d) (c # p @ d) \<noteq> d"
  proof
    assume "take (length d) (c # p @ d) = d"
    with e show False by simp
  qed
  with e have m: "map (\<lambda>(l, r). (c # l, r)) (splits d (p @ d)) = [(c # p, [])]" by simp
  then obtain x where x: "splits d (p @ d) = [x]" by (cases "splits d (p @ d)") auto
  with m have "x = (p, [])" by (cases x) simp
  with x show "no_early d p" by (simp add: no_early_def)
qed

lemma splits_self:
  assumes "d \<noteq> []"
  shows "\<exists>others. splits d (d @ rest) = ([], rest) # others"
proof -
  obtain x d' where d: "d = x # d'" using assms by (cases d) auto
  have "splits d (x # (d' @ rest)) =
          (if take (length d) (x # (d' @ rest)) = d then [([], drop (length d) (x # (d' @ rest)))] else []) @
          map (\<lambda>(l, r). (x # l, r)) (splits d (d' @ rest))"
    by (rule splits.simps(2))
  moreover have "x # (d' @ rest) = d @ rest" by (simp add: d)
  ultimately show ?thesis by simp
qed

lemma splits_first:
  assumes "d \<noteq> []" and "no_early d p"
  shows "\<exists>others. splits d (p @ d @ rest) = (p, rest) # others"
  using assms(2)
proof (induction p)
  case Nil
  show ?case using splits_self[OF assms(1), of rest] by simp
next
  case (Cons c p)
  from no_early_Cons[OF Cons.prems] have n: "take (length d) (c # p @ d) \<noteq> d" and p: "no_early d p"
    by simp_all
  have "take (length d) ((c # p @ d) @ rest) = take (length d) (c # p @ d)"
    by (rule take_append_long) simp
  with n have n': "take (length d) (c # p @ d @ rest) \<noteq> d" by simp
  from Cons.IH[OF p] obtain others where o: "splits d (p @ d @ rest) = (p, rest) # others" by blast
  have "splits d (c # (p @ d @ rest)) =
          (if take (length d) (c # (p @ d @ rest)) = d then [([], drop (length d) (c # (p @ d @ rest)))] else []) @
          map (\<lambda>(l, r). (c # l, r)) (splits d (p @ d @ rest))"
    by (rule splits.simps(2))
  with n' o show ?case by simp
qed

lemma splits_response:
  assumes "T \<noteq> []" and "no_early (T @ H) r" and "t2 = [] \<or> take (length H) t2 = H"
  shows "\<exists>early later. splits T (r @ T @ t2) = early @ (r, t2) # later \<and>
           (\<forall>x\<in>set early. snd x \<noteq> [] \<and> take (length H) (snd x) \<noteq> H)"
  using assms(2)
proof (induction r)
  case Nil
  from splits_self[OF assms(1), of t2] obtain others where "splits T (T @ t2) = ([], t2) # others"
    by blast
  then have "splits T ([] @ T @ t2) = [] @ ([], t2) # others \<and>
             (\<forall>x\<in>set ([] :: (pystr \<times> pystr) list). snd x \<noteq> [] \<and> take (length H) (snd x) \<noteq> H)"
    by simp
  then show ?case by blast
next
  case (Cons c r)
  let ?cs = "c # (r @ T @ t2)"
  let ?front = "if take (length T) ?cs = T then [([], drop (length T) ?cs)] else []"
  from no_early_Cons[OF Cons.prems]
  have n: "take (length (T @ H)) (c # r @ T @ H) \<noteq> T @ H" and r: "no_early (T @ H) r"
    by simp_all
  from Cons.IH[OF r] obtain early later where
    s: "splits T (r @ T @ t2) = early @ (r, t2) # later"
    and e: "\<forall>x\<in>set early. snd x \<noteq> [] \<and> take (length H) (snd x) \<noteq> H"
    by blast
  have same: "take (length T + length H) ?cs = take (length T + length H) (c # r @ T @ H)"
    if "take (length H) (drop (length T) ?cs) = H" and "take (length T) ?cs = T"
  proof -
    from assms(3) show ?thesis
    proof
      assume t2: "t2 = []"
      have "take (length T + length H) ?cs = take (length T) ?cs @ take (length H) (drop (length T) ?cs)"
        by (rule take_add)
      with that have "take (length T + length H) ?cs = T @ H" by simp
      then have "length (take (length T + length H) ?cs) = length T + length H" by simp
      then have "length T + length H \<le> length ?cs" by simp
      then have "length T + length H \<le> length (c # r @ T)" using t2 by simp
      then have "take (length T + length H) ((c # r @ T) @ H) = take (length T + length H) (c # r @ T)"
        by (rule take_append_long)
      then show ?thesis using t2 by simp
    next
      assume "take (length H) t2 = H"
      then have "t2 = H @ drop (length H) t2" by (metis append_take_drop_id)
      then have "?cs = (c # r @ T @ H) @ drop (length H) t2" by simp
      moreover have "take (length T + length H) ((c # r @ T @ H) @ drop (length H) t2) =
                     take (length T + length H) (c # r @ T @ H)"
        by (rule take_append_long) simp
      ultimately show ?thesis by simp
    qed
  qed
  have front: "\<forall>x\<in>set ?front. snd x \<noteq> [] \<and> take (length H) (snd x) \<noteq> H"
  proof (cases "take (length T) ?cs = T")
    case False
    then show ?thesis by simp
  next
    case True
    have 1: "drop (length T) ?cs \<noteq> []" by simp
    have 2: "take (length H) (drop (length T) ?cs) \<noteq> H"
    proof
      assume h: "take (length H) (drop (length T) ?cs) = H"
      have "take (length T + length H) ?cs = take (length T) ?cs @ take (length H) (drop (length T) ?cs)"
        by (rule take_add)
      with h True have "take (length T + length H) ?cs = T @ H" by simp
      with same[OF h True] n show False by simp
    qed
    from True 1 2 show ?thesis by simp
  qed
  have "splits T ?cs = ?front @ map (\<lambda>(l, r). (c # l, r)) (splits T (r @ T @ t2))"
    by (rule splits.simps(2))
  then have "splits T ((c # r) @ T @ t2) =
             (?front @ map (\<lambda>(l, r). (c # l, r)) early) @ (c # r, t2) # map (\<lambda>(l, r). (c # l, r)) later"
    using s by simp
  moreover have "\<forall>x\<in>set (?front @ map (\<lambda>(l, r). (c # l, r)) early). snd x \<noteq> [] \<and> take (length H) (snd x) \<noteq> H"
    using front e by (auto split: if_splits)
  ultimately show ?case by blast
qed

lemma parses_dead:
  assumes "cs \<noteq> []" and "take (length H) cs \<noteq> H"
  shows "parses H D T n cs = []"
  using assms by (cases n) simp_all

lemma concat_map_dead: "(\<forall>x\<in>set xs. f x = []) \<Longrightarrow> concat (map f xs) = []"
  by (induction xs) simp_all

lemma blocks_start:
  "concat (map (block_of H D T) ps) = [] \<or>
   take (length H) (concat (map (block_of H D T) ps)) = H"
  by (cases ps) (simp_all add: block_of_def)

lemma parses_first:
  assumes "D \<noteq> []" and "T \<noteq> []"
    and "\<forall>pr\<in>set ps. no_early D (fst pr) \<and> no_early (T @ H) (snd pr)"
    and "length ps \<le> n"
  shows "\<exists>others. parses H D T n (concat (map (block_of H D T) ps)) = ps # others"
  using assms(3,4)
proof (induction ps arbitrary: n)
  case Nil
  then show ?case by (cases n) simp_all
next
  case (Cons pr ps)
  obtain p r where pr: "pr = (p, r)" by (cases pr)
  from Cons.prems obtain m where n: "n = Suc m" and m: "length ps \<le> m" by (cases n) auto
  from Cons.prems have np: "no_early D p" and nr: "no_early (T @ H) r"
    and rest: "\<forall>pr\<in>set ps. no_early D (fst pr) \<and> no_early (T @ H) (snd pr)"
    by (simp_all add: pr)
  let ?t2 = "concat (map (block_of H D T) ps)"
  let ?t1 = "r @ T @ ?t2"
  let ?t0 = "p @ D @ ?t1"
  let ?cs = "concat (map (block_of H D T) (pr # ps))"
  let ?G = "\<lambda>(r, t2). map (\<lambda>ps. (p, r) # ps) (parses H D T m t2)"
  let ?F = "\<lambda>(p, t1). concat (map (\<lambda>(r, t2). map (\<lambda>ps. (p, r) # ps) (parses H D T m t2)) (splits T t1))"
  have cs: "?cs = H @ ?t0" by (simp add: pr block_of_pair)
  have ne: "(?cs = []) = False" using assms(1) cs by simp
  have pre: "take (length H) ?cs = H" and dr: "drop (length H) ?cs = ?t0"
    unfolding cs by simp_all
  from Cons.IH[OF rest m] obtain o3 where o3: "parses H D T m ?t2 = ps # o3" by blast
  from splits_first[OF assms(1) np, of ?t1] obtain o1 where o1: "splits D ?t0 = (p, ?t1) # o1"
    by blast
  from splits_response[OF assms(2) nr blocks_start[of H D T ps]] obtain early later where
    s: "splits T ?t1 = early @ (r, ?t2) # later"
    and e: "\<forall>x\<in>set early. snd x \<noteq> [] \<and> take (length H) (snd x) \<noteq> H"
    by blast
  have "\<forall>x\<in>set early. ?G x = []"
  proof
    fix x assume x: "x \<in> set early"
    obtain a b where ab: "x = (a, b)" by (cases x)
    from e x ab have "b \<noteq> []" "take (length H) b \<noteq> H" by auto
    then have "parses H D T m b = []" by (rule parses_dead)
    then show "?G x = []" by (simp add: ab)
  qed
  then have dead: "concat (map ?G early) = []" by (rule concat_map_dead)
  have "concat (map ?G (splits T ?t1)) = concat (map ?G early) @ ?G (r, ?t2) @ concat (map ?G later)"
    unfolding s by simp
  also have "\<dots> = ((p, r) # ps) # map (\<lambda>ps. (p, r) # ps) o3 @ concat (map ?G later)"
    unfolding dead by (simp add: o3)
  finally have g: "concat (map ?G (splits T ?t1)) =
                   ((p, r) # ps) # map (\<lambda>ps. (p, r) # ps) o3 @ concat (map ?G later)" .
  have "parses H D T (Suc m) ?cs = concat (map ?F (splits D ?t0))"
    by (simp only: parses.simps(2) ne pre dr if_False if_True refl)
  also have "\<dots> = concat (map ?G (splits T ?t1)) @ concat (map ?F o1)"
    unfolding o1 by simp
  finally have "parses H D T (Suc m) ?cs =
                ((p, r) # ps) # (map (\<lambda>ps. (p, r) # ps) o3 @ concat (map ?G later)) @ concat (map ?F o1)"
    unfolding g by simp
  then show ?case unfolding n pr by blast
qed

lemma read_blocks_delimited:
  assumes "H \<noteq> []" and "D \<noteq> []" and "T \<noteq> []"
    and "\<forall>pr\<in>set ps. no_early D (fst pr) \<and> no_early (T @ H) (snd pr)"
  shows "read_blocks H D T (concat (map (block_of H D T) ps)) = Some ps"
proof -
  from parses_first[OF assms(2,3,4) length_blocks[OF assms(1), of ps D T]]
  obtain others where
    "parses H D T (length (concat (map (block_of H D T) ps))) (concat (map (block_of H D T) ps)) = ps # others"
    by blast
  then show ?thesis by (simp add: read_blocks_def)
qed

lemma read_blocks_only:
  assumes "H \<noteq> []"
    and "\<forall>qs. concat (map (block_of H D T) qs) = concat (map (block_of H D T) ps) \<longrightarrow> qs = ps"
  shows "read_blocks H D T (concat (map (block_of H D T) ps)) = Some ps"
proof -
  let ?cs = "concat (map (block_of H D T) ps)"
  have "set (parses H D T (length ?cs) ?cs) = {qs. concat (map (block_of H D T) qs) = ?cs}"
    by (rule set_parses[OF assms(1)])
  also have "\<dots> = {ps}" using assms(2) by auto
  finally have s: "set (parses H D T (length ?cs) ?cs) = {ps}" .
  then obtain x xs where c: "parses H D T (length ?cs) ?cs = x # xs"
    by (cases "parses H D T (length ?cs) ?cs") auto
  with s have "x = ps" by auto
  with c show ?thesis by (simp add: read_blocks_def)
qed

lemma txt_block_of: "txt_block = block_of (py ''Prompt: '') ([NL] @ py ''Response: '') [NL, NL]"
  by (rule ext) (simp add: txt_block_def block_of_def split: prod.splits)

lemma md_block_of:
  "md_block = block_of (py ''## Prompt'' @ [NL]) ([NL, NL] @ py ''### Response'' @ [NL]) [NL, NL]"
  by (rule ext) (simp add: md_block_def block_of_def split: prod.splits)

lemma earlier_asym: "earlier a b \<Longrightarrow> \<not> earlier b a"
  by (induction a b rule: earlier.induct) auto

lemma splits_sorted: "sorted_wrt (\<lambda>a b. length (fst a) < length (fst b)) (splits d cs)"
proof (induction cs)
  case Nil
  then show ?case by simp
next
  case (Cons c cs)
  have "sorted_wrt (\<lambda>a b. length (fst a) < length (fst b)) (map (\<lambda>(l, r). (c # l, r)) (splits d cs))"
    using Cons.IH by (simp add: sorted_wrt_map case_prod_beta)
  then show ?case by (auto simp: sorted_wrt_append)
qed

lemma sorted_wrt_concat_map:
  assumes "sorted_wrt Q xs" and "\<forall>x\<in>set xs. sorted_wrt R (F x)"
    and "\<forall>x\<in>set xs. \<forall>y\<in>set xs. Q x y \<longrightarrow> (\<forall>a\<in>set (F x). \<forall>b\<in>set (F y). R a b)"
  shows "sorted_wrt R (concat (map F xs))"
  using assms
proof (induction xs)
  case Nil
  then show ?case by simp
next
  case (Cons x xs)
  have "sorted_wrt R (concat (map F xs))" using Cons by simp
  moreover have "sorted_wrt R (F x)" using Cons.prems(2) by simp
  moreover have "\<forall>a\<in>set (F x). \<forall>b\<in>set (concat (map F xs)). R a b"
  proof (intro ballI)
    fix a b assume a: "a \<in> set (F x)" and "b \<in> set (concat (map F xs))"
    then obtain y where y: "y \<in> set xs" "b \<in> set (F y)" by auto
    with Cons.prems(1) have "Q x y" by simp
    with Cons.prems(3) y a show "R a b" by simp
  qed
  ultimately show ?case by (simp add: sorted_wrt_append)
qed

lemma parses_sorted: "sorted_wrt earlier (parses H D T n cs)"
proof (induction n arbitrary: cs)
  case 0
  then show ?case by simp
next
  case (Suc n)
  let ?Q = "\<lambda>a b :: pystr \<times> pystr. length (fst a) < length (fst b)"
  let ?G = "\<lambda>p (r, t2). map (\<lambda>ps. (p, r) # ps) (parses H D T n t2)"
  let ?F = "\<lambda>(p, t1). concat (map (\<lambda>(r, t2). map (\<lambda>ps. (p, r) # ps) (parses H D T n t2)) (splits T t1))"
  have G: "sorted_wrt earlier (?G p y)" for p y
  proof -
    obtain r t2 where y: "y = (r, t2)" by (cases y)
    show ?thesis using Suc.IH[of t2] by (simp add: y sorted_wrt_map)
  qed
  have F: "sorted_wrt earlier (?F x)" for x
  proof -
    obtain p t1 where x: "x = (p, t1)" by (cases x)
    have "sorted_wrt earlier (concat (map (?G p) (splits T t1)))"
    proof (rule sorted_wrt_concat_map[where Q = ?Q])
      show "sorted_wrt ?Q (splits T t1)" by (rule splits_sorted)
      show "\<forall>y\<in>set (splits T t1). sorted_wrt earlier (?G p y)" using G by blast
      show "\<forall>x\<in>set (splits T t1). \<forall>y\<in>set (splits T t1). ?Q x y \<longrightarrow>
              (\<forall>a\<in>set (?G p x). \<forall>b\<in>set (?G p y). earlier a b)"
        by auto
    qed
    then show ?thesis by (simp add: x)
  qed
  have shape: "\<exists>r qs. a = (fst x, r) # qs" if "a \<in> set (?F x)" for a x
    using that by (cases x) auto
  have all: "sorted_wrt earlier (concat (map ?F (splits D t0)))" for t0
  proof (rule sorted_wrt_concat_map[where Q = ?Q])
    show "sorted_wrt ?Q (splits D t0)" by (rule splits_sorted)
    show "\<forall>x\<in>set (splits D t0). sorted_wrt earlier (?F x)" using F by blast
    show "\<forall>x\<in>set (splits D t0). \<forall>y\<in>set (splits D t0). ?Q x y \<longrightarrow>
            (\<forall>a\<in>set (?F x). \<forall>b\<in>set (?F y). earlier a b)"
    proof (intro ballI impI)
      fix x y a b
      assume q: "?Q x y" and a: "a \<in> set (?F x)" and b: "b \<in> set (?F y)"
      from shape[OF a] shape[OF b] obtain r qs r' qs' where
        "a = (fst x, r) # qs" "b = (fst y, r') # qs'" by blast
      with q show "earlier a b" by simp
    qed
  qed
  show ?case using all[of "drop (length H) cs"] by simp
qed

lemma read_blocks_iff:
  assumes "H \<noteq> []"
  shows "read_blocks H D T (concat (map (block_of H D T) ps)) = Some ps \<longleftrightarrow>
         (\<forall>qs. concat (map (block_of H D T) qs) = concat (map (block_of H D T) ps) \<longrightarrow>
               qs = ps \<or> earlier ps qs)"
proof
  let ?cs = "concat (map (block_of H D T) ps)"
  let ?all = "parses H D T (length ?cs) ?cs"
  have s: "set ?all = {qs. concat (map (block_of H D T) qs) = ?cs}"
    by (rule set_parses[OF assms])
  have sorted: "sorted_wrt earlier ?all" by (rule parses_sorted)
  {
    assume "read_blocks H D T ?cs = Some ps"
    then obtain others where o: "?all = ps # others"
      by (auto simp: read_blocks_def split: list.splits)
    show "\<forall>qs. concat (map (block_of H D T) qs) = ?cs \<longrightarrow> qs = ps \<or> earlier ps qs"
    proof (intro allI impI)
      fix qs assume "concat (map (block_of H D T) qs) = ?cs"
      then have "qs \<in> set ?all" using s by simp
      then have "qs = ps \<or> qs \<in> set others" unfolding o by auto
      then show "qs = ps \<or> earlier ps qs" using sorted unfolding o by auto
    qed
  }
  {
    assume r: "\<forall>qs. concat (map (block_of H D T) qs) = ?cs \<longrightarrow> qs = ps \<or> earlier ps qs"
    have "ps \<in> set ?all" using s by simp
    then obtain x xs where c: "?all = x # xs" by (cases ?all) auto
    then have "x \<in> set ?all" by simp
    then have "concat (map (block_of H D T) x) = ?cs" using s by simp
    with r have x: "x = ps \<or> earlier ps x" by blast
    have "x = ps"
    proof (rule ccontr)
      assume n: "x \<noteq> ps"
      with x have e: "earlier ps x" by simp
      from \<open>ps \<in> set ?all\<close> n have "ps \<in> set xs" unfolding c by auto
      with sorted have "earlier x ps" unfolding c by simp
      with e show False using earlier_asym by blast
    qed
    with c show "read_blocks H D T ?cs = Some ps" by (simp add: read_blocks_def)
  }
qed

text \<open>
  Claim C4, as amended. Pairs that UTF-8 can encode, written in the \<open>txt\<close> or the \<open>md\<close>
  format to a destination that can be opened, are read back from the file by the
  earliest delimiters exactly when no other sequence of pairs that gives the same file
  cuts it earlier. That is so, in particular, when the contents hold no delimiter where
  one is looked for: in no prompt followed by its separator (\<open>\nResponse: \<close>, or
  \<open>\n\n### Response\n\<close>) does the separator occur before the end, and in no response
  followed by a blank line and the header of a block (\<open>\n\nPrompt: \<close>, or
  \<open>\n\n## Prompt\n\<close>) do these occur before the end. A response may then have blank
  lines in it.
\<close>

theorem round_trip_by_earliest_delimiters:
  assumes "writable (disk s) filename"
    and "\<forall>pr \<in> set pairs. encodable (fst pr) \<and> encodable (snd pr)"
  shows
    "(\<exists>s' content. save_responses E pairs filename (py ''txt'') s = Returned () s' \<and>
        files (disk s') filename = Some content \<and>
        (read_txt content = Some pairs \<longleftrightarrow>
           (\<forall>qs. concat (map txt_block qs) = content \<longrightarrow> qs = pairs \<or> earlier pairs qs)) \<and>
        ((\<forall>pr \<in> set pairs. no_early ([NL] @ py ''Response: '') (fst pr) \<and>
                             no_early ([NL, NL] @ py ''Prompt: '') (snd pr)) \<longrightarrow>
           read_txt content = Some pairs)) \<and>
     (\<exists>s' content. save_responses E pairs filename (py ''md'') s = Returned () s' \<and>
        files (disk s') filename = Some content \<and>
        (read_md content = Some pairs \<longleftrightarrow>
           (\<forall>qs. concat (map md_block qs) = content \<longrightarrow> qs = pairs \<or> earlier pairs qs)) \<and>
        ((\<forall>pr \<in> set pairs. no_early ([NL, NL] @ py ''### Response'' @ [NL]) (fst pr) \<and>
                             no_early ([NL, NL] @ py ''## Prompt'' @ [NL]) (snd pr)) \<longrightarrow>
           read_md content = Some pairs))"
proof -
  let ?t = "logger INFO (py ''Saving responses to '' @ filename @ py '' in TXT format'') s"
  let ?m = "logger INFO (py ''Saving responses to '' @ filename @ py '' in Markdown format'') s"
  let ?ct = "concat (map txt_block pairs)"
  let ?cm = "concat (map md_block pairs)"
  have et: "\<forall>pr \<in> set pairs. encodable (txt_block pr)"
    using assms(2) by (auto simp: encodable_txt_block)
  have em: "\<forall>pr \<in> set pairs. encodable (md_block pr)"
    using assms(2) by (auto simp: encodable_md_block)
  have "writable (disk ?t) filename" "writable (disk ?m) filename" using assms(1) by simp_all
  from write_blocks_content[OF this(1) et] write_blocks_content[OF this(2) em]
  obtain s1 s2 where
    w1: "write_blocks txt_block pairs filename ?t = Returned () s1"
    and f1: "files (disk s1) = (files (disk s))(filename \<mapsto> ?ct)"
    and w2: "write_blocks md_block pairs filename ?m = Returned () s2"
    and f2: "files (disk s2) = (files (disk s))(filename \<mapsto> ?cm)"
    by auto
  have it: "read_txt ?ct = Some pairs \<longleftrightarrow>
            (\<forall>qs. concat (map txt_block qs) = ?ct \<longrightarrow> qs = pairs \<or> earlier pairs qs)"
    unfolding read_txt_def txt_block_of by (rule read_blocks_iff) simp
  have im: "read_md ?cm = Some pairs \<longleftrightarrow>
            (\<forall>qs. concat (map md_block qs) = ?cm \<longrightarrow> qs = pairs \<or> earlier pairs qs)"
    unfolding read_md_def md_block_of by (rule read_blocks_iff) simp
  have yt: "read_txt ?ct = Some pairs"
    if "\<forall>pr \<in> set pairs. no_early ([NL] @ py ''Response: '') (fst pr) \<and>
                            no_early ([NL, NL] @ py ''Prompt: '') (snd pr)"
    unfolding read_txt_def txt_block_of by (rule read_blocks_delimited[OF _ _ _ that]) simp_all
  have ym: "read_md ?cm = Some pairs"
    if "\<forall>pr \<in> set pairs. no_early ([NL, NL] @ py ''### Response'' @ [NL]) (fst pr) \<and>
                            no_early ([NL, NL] @ py ''## Prompt'' @ [NL]) (snd pr)"
    unfolding read_md_def md_block_of by (rule read_blocks_delimited[OF _ _ _ that]) simp_all
  have t: "save_responses E pairs filename (py ''txt'') s = Returned () s1"
    using w1 by (simp add: save_responses_def)
  have m: "save_responses E pairs filename (py ''md'') s = Returned () s2"
    using w2 by (simp add: save_responses_def)
  have ft: "files (disk s1) filename = Some ?ct" using f1 by simp
  have fm: "files (disk s2) filename = Some ?cm" using f2 by simp
  have "\<exists>s' content. save_responses E pairs filename (py ''txt'') s = Returned () s' \<and>
        files (disk s') filename = Some content \<and>
        (read_txt content = Some pairs \<longleftrightarrow>
           (\<forall>qs. concat (map txt_block qs) = content \<longrightarrow> qs = pairs \<or> earlier pairs qs)) \<and>
        ((\<forall>pr \<in> set pairs. no_early ([NL] @ py ''Response: '') (fst pr) \<and>
                             no_early ([NL, NL] @ py ''Prompt: '') (snd pr)) \<longrightarrow>
           read_txt content = Some pairs)"
    using t ft it yt by blast
  moreover have "\<exists>s' content. save_responses E pairs filename (py ''md'') s = Returned () s' \<and>
        files (disk s') filename = Some content \<and>
        (read_md content = Some pairs \<longleftrightarrow>
           (\<forall>qs. concat (map md_block qs) = content \<longrightarrow> qs = pairs \<or> earlier pairs qs)) \<and>
        ((\<forall>pr \<in> set pairs. no_early ([NL, NL] @ py ''### Response'' @ [NL]) (fst pr) \<and>
                             no_early ([NL, NL] @ py ''## Prompt'' @ [NL]) (snd pr)) \<longrightarrow>
           read_md content = Some pairs)"
    using m fm im ym by blast
  ultimately show ?thesis by (rule conjI)
qed

text \<open>Two pairs, the second response with a blank line in it.\<close>

theorem round_trip_by_earliest_delimiters_witness:
  "writable (disk (start ([], [], []))) (py ''out'') \<and>
   encodable (py ''What is 2+2?'') \<and> encodable (py ''4'') \<and>
   encodable (py ''Name a color'') \<and> encodable (py ''Blue'' @ [NL, NL] @ py ''or green'') \<and>
   no_early ([NL] @ py ''Response: '') (py ''What is 2+2?'') \<and>
   no_early ([NL, NL] @ py ''Prompt: '') (py ''4'') \<and>
   no_early ([NL] @ py ''Response: '') (py ''Name a color'') \<and>
   no_early ([NL, NL] @ py ''Prompt: '') (py ''Blue'' @ [NL, NL] @ py ''or green'') \<and>
   no_early ([NL, NL] @ py ''### Response'' @ [NL]) (py ''What is 2+2?'') \<and>
   no_early ([NL, NL] @ py ''## Prompt'' @ [NL]) (py ''4'') \<and>
   no_early ([NL, NL] @ py ''### Response'' @ [NL]) (py ''Name a color'') \<and>
   no_early ([NL, NL] @ py ''## Prompt'' @ [NL]) (py ''Blue'' @ [NL, NL] @ py ''or green'') \<and>
   (\<exists>s' content. save_responses scripted
        [(py ''What is 2+2?'', py ''4''), (py ''Name a color'', py ''Blue'' @ [NL, NL] @ py ''or green'')]
        (py ''out'') (py ''txt'') (start ([], [], [])) = Returned () s' \<and>
      files (disk s') (py ''out'') = Some content \<and>
      read_txt content = Some [(py ''What is 2+2?'', py ''4''), (py ''Name a color'', py ''Blue'' @ [NL, NL] @ py ''or green'')]) \<and>
   (\<exists>s' content. save_responses scripted
        [(py ''What is 2+2?'', py ''4''), (py ''Name a color'', py ''Blue'' @ [NL, NL] @ py ''or green'')]
        (py ''out'') (py ''md'') (start ([], [], [])) = Returned () s' \<and>
      files (disk s') (py ''out'') = Some content \<and>
      read_md content = Some [(py ''What is 2+2?'', py ''4''), (py ''Name a color'', py ''Blue'' @ [NL, NL] @ py ''or green'')])"
proof -
  let ?s = "start ([], [], []) :: script state"
  let ?pairs = "[(py ''What is 2+2?'', py ''4''), (py ''Name a color'', py ''Blue'' @ [NL, NL] @ py ''or green'')]"
  have h1: "writable (disk ?s) (py ''out'')" by simp
  have e: "encodable (py ''What is 2+2?'')" "encodable (py ''4'')"
    "encodable (py ''Name a color'')" "encodable (py ''Blue'' @ [NL, NL] @ py ''or green'')"
    by (simp_all add: encodable_def encodable_char_def py_def NL_def)
  have t: "no_early ([NL] @ py ''Response: '') (py ''What is 2+2?'')"
    "no_early ([NL, NL] @ py ''Prompt: '') (py ''4'')"
    "no_early ([NL] @ py ''Response: '') (py ''Name a color'')"
    "no_early ([NL, NL] @ py ''Prompt: '') (py ''Blue'' @ [NL, NL] @ py ''or green'')"
    by (simp_all add: no_early_def py_def NL_def)
  have m: "no_early ([NL, NL] @ py ''### Response'' @ [NL]) (py ''What is 2+2?'')"
    "no_early ([NL, NL] @ py ''## Prompt'' @ [NL]) (py ''4'')"
    "no_early ([NL, NL] @ py ''### Response'' @ [NL]) (py ''Name a color'')"
    "no_early ([NL, NL] @ py ''## Prompt'' @ [NL]) (py ''Blue'' @ [NL, NL] @ py ''or green'')"
    by (simp_all add: no_early_def py_def NL_def)
  have h2: "\<forall>pr \<in> set ?pairs. encodable (fst pr) \<and> encodable (snd pr)" using e by simp
  have ht: "\<forall>pr \<in> set ?pairs. no_early ([NL] @ py ''Response: '') (fst pr) \<and>
                                 no_early ([NL, NL] @ py ''Prompt: '') (snd pr)"
    using t by simp
  have hm: "\<forall>pr \<in> set ?pairs. no_early ([NL, NL] @ py ''### Response'' @ [NL]) (fst pr) \<and>
                                 no_early ([NL, NL] @ py ''## Prompt'' @ [NL]) (snd pr)"
    using m by simp
  note r = round_trip_by_earliest_delimiters[OF h1 h2, of scripted]
  have a: "\<exists>s' content. save_responses scripted ?pairs (py ''out'') (py ''txt'') ?s = Returned () s' \<and>
      files (disk s') (py ''out'') = Some content \<and> read_txt content = Some ?pairs"
    using r[THEN conjunct1] ht
    apply (elim exE conjE)
    subgoal for s' content
      apply (rule exI[of _ s'])
      apply (rule exI[of _ content])
      apply (intro conjI)
        apply assumption
       apply assumption
      apply (erule mp)
      apply assumption
      done
    done
  have b: "\<exists>s' content. save_responses scripted ?pairs (py ''out'') (py ''md'') ?s = Returned () s' \<and>
      files (disk s') (py ''out'') = Some content \<and> read_md content = Some ?pairs"
    using r[THEN conjunct2] hm
    apply (elim exE conjE)
    subgoal for s' content
      apply (rule exI[of _ s'])
      apply (rule exI[of _ content])
      apply (intro conjI)
        apply assumption
       apply assumption
      apply (erule mp)
      apply assumption
      done
    done
  show ?thesis
    apply (intro conjI)
    apply (rule h1 e t m a b)+
    done
qed

text \<open>
  Claim C4 as stated, for arbitrary contents, fails for contents that hold a delimiter.
  The pair of the prompt \<open>a\nResponse: b\<close> and the response \<open>c\<close> is written as the
  same file as the pair of \<open>a\<close> and \<open>b\nResponse: c\<close>, which is what is read back; no
  reader can give back both. The same holds in the \<open>md\<close> format.
\<close>

theorem delimiter_in_content_breaks_round_trip:
  "files (disk (state_of (save_responses scripted [(py ''a'' @ [NL] @ py ''Response: b'', py ''c'')]
        (py ''out'') (py ''txt'') (start ([], [], []))))) (py ''out'') =
     Some (py ''Prompt: a'' @ [NL] @ py ''Response: b'' @ [NL] @ py ''Response: c'' @ [NL, NL]) \<and>
   files (disk (state_of (save_responses scripted [(py ''a'', py ''b'' @ [NL] @ py ''Response: c'')]
        (py ''out'') (py ''txt'') (start ([], [], []))))) (py ''out'') =
     Some (py ''Prompt: a'' @ [NL] @ py ''Response: b'' @ [NL] @ py ''Response: c'' @ [NL, NL]) \<and>
   read_txt (py ''Prompt: a'' @ [NL] @ py ''Response: b'' @ [NL] @ py ''Response: c'' @ [NL, NL]) =
     Some [(py ''a'', py ''b'' @ [NL] @ py ''Response: c'')] \<and>
   [(py ''a'', py ''b'' @ [NL] @ py ''Response: c'')] \<noteq> [(py ''a'' @ [NL] @ py ''Response: b'', py ''c'')] \<and>
   files (disk (state_of (save_responses scripted [(py ''a'' @ [NL, NL] @ py ''### Response'' @ [NL] @ py ''b'', py ''c'')]
        (py ''out'') (py ''md'') (start ([], [], []))))) (py ''out'') =
     Some (py ''## Prompt'' @ [NL] @ py ''a'' @ [NL, NL] @ py ''### Response'' @ [NL] @ py ''b'' @
           [NL, NL] @ py ''### Response'' @ [NL] @ py ''c'' @ [NL, NL]) \<and>
   files (disk (state_of (save_responses scripted [(py ''a'', py ''b'' @ [NL, NL] @ py ''### Response'' @ [NL] @ py ''c'')]
        (py ''out'') (py ''md'') (start ([], [], []))))) (py ''out'') =
     Some (py ''## Prompt'' @ [NL] @ py ''a'' @ [NL, NL] @ py ''### Response'' @ [NL] @ py ''b'' @
           [NL, NL] @ py ''### Response'' @ [NL] @ py ''c'' @ [NL, NL]) \<and>
   read_md (py ''## Prompt'' @ [NL] @ py ''a'' @ [NL, NL] @ py ''### Response'' @ [NL] @ py ''b'' @
           [NL, NL] @ py ''### Response'' @ [NL] @ py ''c'' @ [NL, NL]) =
     Some [(py ''a'', py ''b'' @ [NL, NL] @ py ''### Response'' @ [NL] @ py ''c'')] \<and>
   [(py ''a'', py ''b'' @ [NL, NL] @ py ''### Response'' @ [NL] @ py ''c'')] \<noteq>
     [(py ''a'' @ [NL, NL] @ py ''### Response'' @ [NL] @ py ''b'', py ''c'')]"
proof -
  have w: "files (disk (state_of (save_responses scripted [(py ''a'' @ [NL] @ py ''Response: b'', py ''c'')]
        (py ''out'') (py ''txt'') (start ([], [], []))))) (py ''out'') =
     Some (py ''Prompt: a'' @ [NL] @ py ''Response: b'' @ [NL] @ py ''Response: c'' @ [NL, NL])"
    "files (disk (state_of (save_responses scripted [(py ''a'', py ''b'' @ [NL] @ py ''Response: c'')]
        (py ''out'') (py ''txt'') (start ([], [], []))))) (py ''out'') =
     Some (py ''Prompt: a'' @ [NL] @ py ''Response: b'' @ [NL] @ py ''Response: c'' @ [NL, NL])"
    "files (disk (state_of (save_responses scripted [(py ''a'' @ [NL, NL] @ py ''### Response'' @ [NL] @ py ''b'', py ''c'')]
        (py ''out'') (py ''md'') (start ([], [], []))))) (py ''out'') =
     Some (py ''## Prompt'' @ [NL] @ py ''a'' @ [NL, NL] @ py ''### Response'' @ [NL] @ py ''b'' @
           [NL, NL] @ py ''### Response'' @ [NL] @ py ''c'' @ [NL, NL])"
    "files (disk (state_of (save_responses scripted [(py ''a'', py ''b'' @ [NL, NL] @ py ''### Response'' @ [NL] @ py ''c'')]
        (py ''out'') (py ''md'') (start ([], [], []))))) (py ''out'') =
     Some (py ''## Prompt'' @ [NL] @ py ''a'' @ [NL, NL] @ py ''### Response'' @ [NL] @ py ''b'' @
           [NL, NL] @ py ''### Response'' @ [NL] @ py ''c'' @ [NL, NL])"
    by (simp_all add: save_responses_def write_blocks_def open_w_def f_write_def txt_block_def md_block_def
        encodable_def encodable_char_def py_def NL_def)
  have r: "read_txt (py ''Prompt: a'' @ [NL] @ py ''Response: b'' @ [NL] @ py ''Response: c'' @ [NL, NL]) =
     Some [(py ''a'', py ''b'' @ [NL] @ py ''Response: c'')]"
    "read_md (py ''## Prompt'' @ [NL] @ py ''a'' @ [NL, NL] @ py ''### Response'' @ [NL] @ py ''b'' @
           [NL, NL] @ py ''### Response'' @ [NL] @ py ''c'' @ [NL, NL]) =
     Some [(py ''a'', py ''b'' @ [NL, NL] @ py ''### Response'' @ [NL] @ py ''c'')]"
    by (simp_all add: read_txt_def read_md_def read_blocks_def py_def NL_def)
  have d: "[(py ''a'', py ''b'' @ [NL] @ py ''Response: c'')] \<noteq> [(py ''a'' @ [NL] @ py ''Response: b'', py ''c'')]"
    "[(py ''a'', py ''b'' @ [NL, NL] @ py ''### Response'' @ [NL] @ py ''c'')] \<noteq>
     [(py ''a'' @ [NL, NL] @ py ''### Response'' @ [NL] @ py ''b'', py ''c'')]"
    by (simp_all add: py_def)
  show ?thesis
    apply (intro conjI)
    apply (rule w r d)+
    done
qed

end
